theory Spec2Isabelle
  imports Main "HOL-Library.Word"
begin

section \<open>Data model of mods_manager.py\<close>

text \<open>
  Values read from the mod portal arrive as JSON. A release is the dictionary of one
  entry of \<^verbatim>\<open>r.json()['releases']\<close>; the two fields the program parses before
  use are held parsed: \<^verbatim>\<open>parse(release['info_json']['factorio_version'])\<close> as the
  release segment of a \<^verbatim>\<open>packaging\<close> version, and
  \<^verbatim>\<open>datetime.strptime(release['released_at'], ...)\<close> as a count of microseconds.
\<close>

type_synonym version = "nat list"

type_synonym bytes = "8 word list"

record release =
  file_name :: string
  download_url :: string
  sha1 :: string
  mod_version :: string
  info_factorio_version :: version
  released_at :: int

record mod_entry =
  name :: string
  enabled :: bool

record mod_infos =
  info_name :: string
  info_enabled :: bool
  releases :: "release list"
  same_version_releases :: "release list"

text \<open>
  The ways a call is left early: the Python exceptions the pieces modelled can raise
  (\<open>OSError\<close> stands for whatever running an external program raises), and
  \<^verbatim>\<open>exit(n)\<close>.
\<close>

datatype error =
    KeyError
  | TypeError
  | IndexError
  | ZeroDivisionError
  | OSError
  | SystemExit nat

text \<open>
  The answer of \<^verbatim>\<open>requests.get('https://mods.factorio.com/api/mods/' + name)\<close>:
  a status code other than 200, or a JSON body that has a \<^verbatim>\<open>releases\<close> key or not.
\<close>

datatype api_response =
    Status_Other
  | Status_200 "release list option"

text \<open>
  The answer of the artifact request of \<^verbatim>\<open>download_mod\<close>: its
  \<^verbatim>\<open>Content-Type\<close> and \<^verbatim>\<open>content-length\<close> headers and the chunks that
  \<^verbatim>\<open>iter_content\<close> yields (\<^verbatim>\<open>r.content\<close> is their concatenation).
\<close>

record download_response =
  content_type :: "string option"
  content_length :: "nat option"
  chunks :: "bytes list"

datatype probe = Probe_Raises | Probe_No_Match | Probe_Version nat nat

record config =
  cfg_should_reload :: "bool option"
  cfg_service_name :: "string option"
  cfg_factorio_path :: "string option"
  cfg_username :: "string option"
  cfg_token :: "string option"
  cfg_verbose :: "bool option"
  cfg_should_downgrade :: "bool option"

text \<open>
  Everything the program reads and does not control: the portal, the artifact source
  (asked with the url and the credentials), \<^verbatim>\<open>hashlib.sha1\<close> as the digest of the
  bytes fed to it, \<^verbatim>\<open>config.json\<close> (absent or parsed), the path probes of
  \<^verbatim>\<open>os.path\<close>, the output of the game binary, and whether \<^verbatim>\<open>git\<close> can be run.
\<close>

record env =
  portal :: "string \<Rightarrow> api_response"
  artifact :: "string \<Rightarrow> string \<Rightarrow> string \<Rightarrow> download_response"
  sha1_hexdigest :: "bytes \<Rightarrow> string"
  config_file :: "config option"
  abspath :: "string \<Rightarrow> string"
  path_exists :: "string \<Rightarrow> bool"
  path_isdir :: "string \<Rightarrow> bool"
  path_isfile :: "string \<Rightarrow> bool"
  binary_version :: probe
  git_available :: bool

record args =
  argv_length :: nat
  args_factorio_path :: "string option"
  args_username :: "string option"
  args_token :: "string option"
  args_dry_run :: bool
  args_mod_name_to_install :: "string option"
  args_should_update :: bool
  args_enabled_only :: bool
  args_list_mods :: bool
  args_remove_mod_name :: "string option"
  args_list_enable_mods :: "string list"
  args_list_disable_mods :: "string list"
  args_should_downgrade :: bool
  args_should_reload :: bool
  args_service_name :: "string option"
  args_verbose :: bool
  args_disable_mod_manager_update :: bool

text \<open>
  The state the program works on: the dictionary \<^verbatim>\<open>glob\<close>, and the world it
  changes. \<open>files\<close> is the mods folder, keyed by file name
  (\<^verbatim>\<open>os.path.join(glob['mods_folder_path'], file_name)\<close> addresses the entry
  \<open>file_name\<close>); \<open>mods_list_json\<close> is the \<^verbatim>\<open>mods\<close> array of mod-list.json;
  \<open>requests\<close>, \<open>downloads\<close> and \<open>restarts\<close> record the metadata requests, the
  artifact requests and the \<^verbatim>\<open>systemctl restart\<close> calls made so far. Console output
  is not part of the state.
\<close>

record state =
  verbose :: bool
  dry_run :: bool
  factorio_path :: "string option"
  factorio_version :: "version option"
  mods_folder_path :: string
  mods_list_path :: string
  username :: string
  token :: string
  should_reload :: bool
  service_name :: "string option"
  has_to_reload :: bool
  should_downgrade :: bool
  files :: "string \<rightharpoonup> bytes"
  mods_list_json :: "mod_entry list"
  requests :: "string list"
  downloads :: "string list"
  restarts :: "string list"

text \<open>
  A call either returns or leaves through an exception or \<^verbatim>\<open>exit\<close>; the state
  reached at that moment is kept, since what was deleted or written stays so.
\<close>

datatype 'a outcome = Done 'a | Abort error state

section \<open>Versions as packaging compares them\<close>

text \<open>
  \<^verbatim>\<open>packaging.version.Version\<close> compares release segments as tuples after
  dropping trailing zeros, so that 1.0 and 1.0.0 are equal.
\<close>

fun tuple_le :: "nat list \<Rightarrow> nat list \<Rightarrow> bool" where
  "tuple_le [] ys = True"
| "tuple_le (x # xs) [] = False"
| "tuple_le (x # xs) (y # ys) = (x < y \<or> (x = y \<and> tuple_le xs ys))"

definition cmpkey :: "version \<Rightarrow> nat list" where
  "cmpkey v = rev (dropWhile (\<lambda>n. n = 0) (rev v))"

definition version_eq :: "version \<Rightarrow> version \<Rightarrow> bool" where
  "version_eq a b = (cmpkey a = cmpkey b)"

definition version_le :: "version \<Rightarrow> version \<Rightarrow> bool" where
  "version_le a b = tuple_le (cmpkey a) (cmpkey b)"

text \<open>The major and minor component of a version, a missing one read as 0.\<close>

definition component :: "version \<Rightarrow> nat \<Rightarrow> nat" where
  "component v i = (if i < length v then v ! i else 0)"

definition major_minor :: "version \<Rightarrow> nat \<times> nat" where
  "major_minor v = (component v 0, component v 1)"

section \<open>Global, utility functions\<close>

definition BLOCKSIZE :: nat where
  "BLOCKSIZE = 65536"

text \<open>
  The loop of \<^verbatim>\<open>get_file_sha1\<close>: \<open>hasher\<close> is what has been fed to the hash
  object so far, \<open>rest\<close> what the file still holds; \<^verbatim>\<open>afile.read(BLOCKSIZE)\<close>
  takes the next block.
\<close>

function read_blocks :: "bytes \<Rightarrow> bytes \<Rightarrow> bytes" where
  "read_blocks hasher rest =
     (let buf = take BLOCKSIZE rest
      in if length buf > 0 then read_blocks (hasher @ buf) (drop BLOCKSIZE rest)
         else hasher)"
  by pat_completeness auto
termination
  by (relation "measure (\<lambda>(hasher, rest). length rest)") (auto simp: BLOCKSIZE_def)

declare read_blocks.simps [simp del]

definition get_file_sha1 :: "env \<Rightarrow> bytes \<Rightarrow> string" where
  "get_file_sha1 e content = sha1_hexdigest e (read_blocks [] content)"

definition find_version :: "env \<Rightarrow> state \<Rightarrow> (version option) outcome" where
  "find_version e s =
     (case binary_version e of
        Probe_Raises \<Rightarrow> Abort OSError s
      | Probe_No_Match \<Rightarrow> Done None
      | Probe_Version major minor \<Rightarrow> Done (Some [major, minor]))"

definition read_mods_list :: "bool \<Rightarrow> state \<Rightarrow> (mod_entry list) outcome" where
  "read_mods_list remove_base s =
     (if remove_base then
        (case mods_list_json s of
           [] \<Rightarrow> Abort IndexError s
         | base # mods_list_dict \<Rightarrow> Done mods_list_dict)
      else Done (mods_list_json s))"

definition write_mods_list :: "mod_entry list \<Rightarrow> state \<Rightarrow> state" where
  "write_mods_list mods_list s =
     (if dry_run s then s else s\<lparr>mods_list_json := mods_list\<rparr>)"

definition remove_file :: "string \<Rightarrow> state \<Rightarrow> state" where
  "remove_file file_path s =
     (if file_path \<in> dom (files s) then
        (if dry_run s then s else s\<lparr>files := (files s)(file_path := None)\<rparr>)
      else s)"

section \<open>Release resolution\<close>

text \<open>
  \<^verbatim>\<open>sorted(..., key=released_at, reverse=True)\<close> is stable: releases come most
  recent first, and releases of equal time keep the order of the input.
\<close>

definition sorted_by_released_at :: "release list \<Rightarrow> release list" where
  "sorted_by_released_at rels = sort_key (\<lambda>i. - released_at i) rels"

text \<open>
  The two list comprehensions of \<^verbatim>\<open>get_mod_infos\<close>. \<^verbatim>\<open>glob['factorio_version']\<close>
  is \<^verbatim>\<open>None\<close> when the version probe matched nothing: \<^verbatim>\<open>==\<close> against
  \<^verbatim>\<open>None\<close> is false, \<^verbatim>\<open><=\<close> against \<^verbatim>\<open>None\<close> raises TypeError at the first
  release compared.
\<close>

definition filter_releases ::
  "bool \<Rightarrow> version option \<Rightarrow> release list \<Rightarrow> error + release list" where
  "filter_releases downgrade target sorted_releases =
     (if downgrade then
        (case target of
           None \<Rightarrow> (if sorted_releases = [] then Inr [] else Inl TypeError)
         | Some t \<Rightarrow>
             Inr (filter (\<lambda>release. version_le (info_factorio_version release) t)
                    sorted_releases))
      else
        Inr (filter
               (\<lambda>release. case target of
                    None \<Rightarrow> False
                  | Some t \<Rightarrow> version_eq (info_factorio_version release) t)
               sorted_releases))"

text \<open>
  \<^verbatim>\<open>get_mod_infos\<close>. The entry of the mods list (\<^verbatim>\<open>mod\<close> in the source) is called
  \<open>entry\<close> here. The test
  \<^verbatim>\<open>'releases' not in r.json() and len(r.json()['releases']) == 0\<close> never holds: without
  the key its second operand raises KeyError, with the key its first operand is false,
  so that an empty list of releases goes on to the sort.
\<close>

definition get_mod_infos :: "env \<Rightarrow> mod_entry \<Rightarrow> state \<Rightarrow> (mod_infos option \<times> state) outcome" where
  "get_mod_infos e entry s =
     (let s1 = s\<lparr>requests := requests s @ [name entry]\<rparr>
      in case portal e (name entry) of
           Status_Other \<Rightarrow> Done (None, s1)
         | Status_200 None \<Rightarrow> Abort KeyError s1
         | Status_200 (Some rels) \<Rightarrow>
             (let sorted_releases = sorted_by_released_at rels
              in case filter_releases (should_downgrade s1) (factorio_version s1) sorted_releases of
                   Inl err \<Rightarrow> Abort err s1
                 | Inr filtered_releases \<Rightarrow>
                     Done (Some \<lparr>info_name = name entry, info_enabled = enabled entry,
                                 releases = sorted_releases,
                                 same_version_releases = filtered_releases\<rparr>, s1)))"

definition check_file_and_sha :: "env \<Rightarrow> string \<Rightarrow> string \<Rightarrow> state \<Rightarrow> bool" where
  "check_file_and_sha e file_path digest s =
     (case files s file_path of
        None \<Rightarrow> False
      | Some content \<Rightarrow> digest = get_file_sha1 e content)"

section \<open>Downloading\<close>

definition append_file :: "string \<Rightarrow> bytes \<Rightarrow> state \<Rightarrow> state" where
  "append_file file_path chunk s =
     s\<lparr>files := (files s)(file_path \<mapsto>
          (case files s file_path of None \<Rightarrow> chunk | Some written \<Rightarrow> written @ chunk))\<rparr>"

text \<open>
  The loop over \<^verbatim>\<open>r.iter_content(8192)\<close>: each chunk is written, then the progress
  bar divides by the declared length.
\<close>

fun write_chunks :: "nat \<Rightarrow> string \<Rightarrow> bytes list \<Rightarrow> state \<Rightarrow> state outcome" where
  "write_chunks total_length file_path [] s = Done s"
| "write_chunks total_length file_path (chunk # rest) s =
     (let s1 = append_file file_path chunk s
      in if total_length = 0 then Abort ZeroDivisionError s1
         else write_chunks total_length file_path rest s1)"

definition download_mod :: "env \<Rightarrow> string \<Rightarrow> string \<Rightarrow> state \<Rightarrow> state outcome" where
  "download_mod e file_path url s =
     (if dry_run s then Done s
      else
        (let s1 = s\<lparr>downloads := downloads s @ [url]\<rparr>;
             r = artifact e url (username s) (token s)
         in if content_type r \<noteq> Some ''application/zip'' then Abort (SystemExit 1) s1
            else
              (case content_length r of
                 None \<Rightarrow> Done (s1\<lparr>files := (files s1)(file_path \<mapsto> concat (chunks r))\<rparr>)
               | Some total_length \<Rightarrow>
                   write_chunks total_length file_path (chunks r)
                     (s1\<lparr>files := (files s1)(file_path \<mapsto> [])\<rparr>))))"

section \<open>Update, install, remove\<close>

text \<open>The body of the loop of \<^verbatim>\<open>update_mods\<close>, for one entry of the mods list.\<close>

definition update_mod :: "env \<Rightarrow> bool \<Rightarrow> mod_entry \<Rightarrow> state \<Rightarrow> state outcome" where
  "update_mod e enabled_only entry s =
     (case get_mod_infos e entry s of
        Abort err s1 \<Rightarrow> Abort err s1
      | Done (None, s1) \<Rightarrow> Abort TypeError s1
      | Done (Some infos, s1) \<Rightarrow>
          if enabled_only \<and> \<not> info_enabled infos then Done s1
          else
            (case same_version_releases infos of
               [] \<Rightarrow> Done s1
             | selected # others \<Rightarrow>
                 (let delete_list =
                        filter (\<lambda>release. file_name release \<notin> set [file_name selected])
                          (releases infos);
                      s2 = fold (\<lambda>release. remove_file (file_name release)) delete_list s1
                  in if check_file_and_sha e (file_name selected) (sha1 selected) s2 then Done s2
                     else
                       (case download_mod e (file_name selected) (download_url selected) s2 of
                          Abort err s3 \<Rightarrow> Abort err s3
                        | Done s3 \<Rightarrow> Done (s3\<lparr>has_to_reload := True\<rparr>)))))"

fun update_loop :: "env \<Rightarrow> bool \<Rightarrow> mod_entry list \<Rightarrow> state \<Rightarrow> state outcome" where
  "update_loop e enabled_only [] s = Done s"
| "update_loop e enabled_only (entry # mods_list) s =
     (case update_mod e enabled_only entry s of
        Abort err s1 \<Rightarrow> Abort err s1
      | Done s1 \<Rightarrow> update_loop e enabled_only mods_list s1)"

definition update_mods :: "env \<Rightarrow> bool \<Rightarrow> state \<Rightarrow> state outcome" where
  "update_mods e enabled_only s =
     (case read_mods_list True s of
        Abort err s1 \<Rightarrow> Abort err s1
      | Done mods_list \<Rightarrow> update_loop e enabled_only mods_list s)"

definition install_mod :: "env \<Rightarrow> string \<Rightarrow> state \<Rightarrow> state outcome" where
  "install_mod e mod_name s =
     (let entry = \<lparr>name = mod_name, enabled = True\<rparr>
      in case get_mod_infos e entry s of
           Abort err s1 \<Rightarrow> Abort err s1
         | Done (None, s1) \<Rightarrow> Done s1
         | Done (Some infos, s1) \<Rightarrow>
             (case same_version_releases infos of
                [] \<Rightarrow> Done s1
              | selected # others \<Rightarrow>
                  (case read_mods_list False s1 of
                     Abort err s2 \<Rightarrow> Abort err s2
                   | Done mods_list \<Rightarrow>
                       (let s2 = write_mods_list (mods_list @ [entry]) s1
                        in if check_file_and_sha e (file_name selected) (sha1 selected) s2
                           then Done s2
                           else
                             (case download_mod e (file_name selected) (download_url selected) s2 of
                                Abort err s3 \<Rightarrow> Abort err s3
                              | Done s3 \<Rightarrow> Done (s3\<lparr>has_to_reload := True\<rparr>))))))"

definition remove_mod :: "env \<Rightarrow> string \<Rightarrow> state \<Rightarrow> state outcome" where
  "remove_mod e mod_name s =
     (case get_mod_infos e \<lparr>name = mod_name, enabled = True\<rparr> s of
        Abort err s1 \<Rightarrow> Abort err s1
      | Done (None, s1) \<Rightarrow> Done s1
      | Done (Some infos, s1) \<Rightarrow>
          (let s2 = fold (\<lambda>release. remove_file (file_name release)) (releases infos) s1
           in case read_mods_list False s2 of
                Abort err s3 \<Rightarrow> Abort err s3
              | Done mods_list \<Rightarrow>
                  (let new_mods_list = filter (\<lambda>entry. mod_name \<noteq> name entry) mods_list
                   in Done ((write_mods_list new_mods_list s2)\<lparr>has_to_reload := True\<rparr>))))"

definition update_state_mods :: "string list \<Rightarrow> bool \<Rightarrow> state \<Rightarrow> state outcome" where
  "update_state_mods mods_name_list should_enable s =
     (case read_mods_list False s of
        Abort err s1 \<Rightarrow> Abort err s1
      | Done mods_list \<Rightarrow>
          (let mods_list' =
                 map (\<lambda>entry. if name entry \<in> set mods_name_list
                             then entry\<lparr>enabled := should_enable\<rparr> else entry) mods_list
           in Done ((write_mods_list mods_list' s)\<lparr>has_to_reload := True\<rparr>)))"

section \<open>Configuration and the main sequence\<close>

text \<open>
  Python's truth of an optional string (\<^verbatim>\<open>x if x else ...\<close>, \<^verbatim>\<open>x or ...\<close>):
  \<^verbatim>\<open>None\<close> and the empty string are false.
\<close>

definition truthy :: "string option \<Rightarrow> bool" where
  "truthy x = (case x of None \<Rightarrow> False | Some v \<Rightarrow> v \<noteq> [])"

definition str_or :: "string option \<Rightarrow> string \<Rightarrow> string" where
  "str_or x d = (case x of None \<Rightarrow> d | Some v \<Rightarrow> if v \<noteq> [] then v else d)"

text \<open>\<^verbatim>\<open>os.path.join\<close> of two components on a POSIX system.\<close>

definition path_join :: "string \<Rightarrow> string \<Rightarrow> string" where
  "path_join a b =
     (if b \<noteq> [] \<and> hd b = CHR ''/'' then b
      else if a = [] \<or> last a = CHR ''/'' then a @ b
      else a @ ''/'' @ b)"

text \<open>\<^verbatim>\<open>config = []\<close>, the defaults taken when config.json does not exist.\<close>

definition no_config :: config where
  "no_config =
     \<lparr>cfg_should_reload = None, cfg_service_name = None, cfg_factorio_path = None,
      cfg_username = None, cfg_token = None, cfg_verbose = None,
      cfg_should_downgrade = None\<rparr>"

definition or_default :: "'a option \<Rightarrow> 'a \<Rightarrow> 'a" where
  "or_default x d = (case x of None \<Rightarrow> d | Some v \<Rightarrow> v)"

text \<open>
  \<^verbatim>\<open>load_config\<close> assigns the entries of \<^verbatim>\<open>glob\<close> in groups, with a check
  after each group. The groups of assignments come first, each as the source computes
  it from the arguments and config.json.
\<close>

definition assign_reload :: "args \<Rightarrow> config \<Rightarrow> state \<Rightarrow> state" where
  "assign_reload a config s =
     s\<lparr>should_reload :=
         (if args_should_reload a then args_should_reload a
          else or_default (cfg_should_reload config) False),
       service_name :=
         (if truthy (args_service_name a) then args_service_name a
          else cfg_service_name config)\<rparr>"

definition assign_factorio_path :: "env \<Rightarrow> args \<Rightarrow> config \<Rightarrow> state \<Rightarrow> state" where
  "assign_factorio_path e a config s =
     s\<lparr>factorio_path :=
         (if truthy (args_factorio_path a)
          then map_option (abspath e) (args_factorio_path a)
          else cfg_factorio_path config)\<rparr>"

definition assign_credentials :: "args \<Rightarrow> config \<Rightarrow> state \<Rightarrow> state" where
  "assign_credentials a config s =
     s\<lparr>username := str_or (args_username a) (or_default (cfg_username config) []),
       token := str_or (args_token a) (or_default (cfg_token config) [])\<rparr>"

definition assign_flags :: "args \<Rightarrow> config \<Rightarrow> state \<Rightarrow> state" where
  "assign_flags a config s =
     s\<lparr>verbose := (args_verbose a \<or> or_default (cfg_verbose config) False),
       dry_run := args_dry_run a\<rparr>"

definition assign_version :: "args \<Rightarrow> config \<Rightarrow> version option \<Rightarrow> state \<Rightarrow> state" where
  "assign_version a config v s =
     s\<lparr>factorio_version := v,
       should_downgrade :=
         (args_should_downgrade a \<or> or_default (cfg_should_downgrade config) False)\<rparr>"

definition load_config :: "env \<Rightarrow> args \<Rightarrow> state \<Rightarrow> (bool \<times> state) outcome" where
  "load_config e a s =
     (let config = or_default (config_file e) no_config;
          s1 = assign_reload a config s
      in if should_reload s1 \<and> service_name s1 = None then Abort (SystemExit 2) s1
         else
           (let s2 = assign_factorio_path e a config s1
            in case factorio_path s2 of
                 None \<Rightarrow> Done (False, s2)
               | Some fp \<Rightarrow>
                   (let s3 = s2\<lparr>mods_folder_path := path_join fp ''mods''\<rparr>
                    in if \<not> path_exists e (mods_folder_path s3)
                          \<and> \<not> path_isdir e (mods_folder_path s3)
                       then Done (False, s3)
                       else
                         (let s4 = s3\<lparr>mods_list_path :=
                                      path_join (mods_folder_path s3) ''mod-list.json''\<rparr>
                          in if \<not> path_exists e (mods_list_path s4)
                                \<and> \<not> path_isfile e (mods_list_path s4)
                             then Done (False, s4)
                             else
                               (let s5 = assign_credentials a config s4
                                in if (args_should_update a \<or> args_mod_name_to_install a \<noteq> None)
                                      \<and> (username s5 = [] \<or> username s5 = [])
                                   then Done (False, s5)
                                   else
                                     (let s6 = assign_flags a config s5
                                      in case find_version e s6 of
                                           Abort err s7 \<Rightarrow> Abort err s7
                                         | Done v \<Rightarrow>
                                             Done (True, assign_version a config v s6)))))))"

text \<open>
  \<^verbatim>\<open>check_mod_manager_update\<close> runs git on the checkout of the tool; it touches
  neither the mods folder nor mod-list.json, and only a failing git command is caught.
\<close>

definition check_mod_manager_update :: "env \<Rightarrow> state \<Rightarrow> state outcome" where
  "check_mod_manager_update e s = (if git_available e then Done s else Abort OSError s)"

text \<open>The end of \<^verbatim>\<open>main\<close>: the restart, then \<^verbatim>\<open>exit(0)\<close>.\<close>

definition reload_and_exit :: "state \<Rightarrow> state outcome" where
  "reload_and_exit s =
     (if has_to_reload s then
        (if dry_run s then Done s
         else if should_reload s
           then Abort (SystemExit 0)
                  (s\<lparr>restarts := restarts s @ [or_default (service_name s) ''None'']\<rparr>)
           else Abort (SystemExit 0) s)
      else Abort (SystemExit 0) s)"

text \<open>
  \<^verbatim>\<open>main\<close>. Every \<^verbatim>\<open>exit(n)\<close> is \<open>Abort (SystemExit n)\<close>, also the
  \<^verbatim>\<open>exit(0)\<close> that ends a complete run; only the \<^verbatim>\<open>return\<close> of the dry run
  is \<open>Done\<close>.
\<close>

definition run_if :: "bool \<Rightarrow> (state \<Rightarrow> state outcome) \<Rightarrow> state \<Rightarrow> state outcome" where
  "run_if c f s = (if c then f s else Done s)"

definition run_if_given ::
  "string option \<Rightarrow> (string \<Rightarrow> state \<Rightarrow> state outcome) \<Rightarrow> state \<Rightarrow> state outcome" where
  "run_if_given x f s =
     (case x of None \<Rightarrow> Done s | Some v \<Rightarrow> if v \<noteq> [] then f v s else Done s)"

definition and_then :: "state outcome \<Rightarrow> (state \<Rightarrow> state outcome) \<Rightarrow> state outcome" where
  "and_then r f = (case r of Abort err s \<Rightarrow> Abort err s | Done s \<Rightarrow> f s)"

definition main :: "env \<Rightarrow> args \<Rightarrow> state \<Rightarrow> state outcome" where
  "main e a s =
     (if argv_length a = 1 then Abort (SystemExit 0) s
      else
        (case load_config e a s of
           Abort err s1 \<Rightarrow> Abort err s1
         | Done (ok, s1) \<Rightarrow>
             if \<not> ok then Abort (SystemExit 1) s1
             else
               and_then (run_if (\<not> args_disable_mod_manager_update a)
                           (check_mod_manager_update e) s1) (\<lambda>s2.
               and_then (run_if (args_list_enable_mods a \<noteq> [])
                           (update_state_mods (args_list_enable_mods a) True) s2) (\<lambda>s3.
               and_then (run_if (args_list_disable_mods a \<noteq> [])
                           (update_state_mods (args_list_disable_mods a) False) s3) (\<lambda>s4.
               if args_list_mods a then
                 (case read_mods_list True s4 of
                    Abort err s5 \<Rightarrow> Abort err s5
                  | Done mods_list \<Rightarrow> Abort (SystemExit 0) s4)
               else
                 and_then (run_if (args_should_update a)
                             (update_mods e (args_enabled_only a)) s4) (\<lambda>s5.
                 and_then (run_if_given (args_mod_name_to_install a) (install_mod e) s5) (\<lambda>s6.
                 and_then (run_if_given (args_remove_mod_name a) (remove_mod e) s6)
                   reload_and_exit)))))))"

text \<open>The state a run ends in, however it ends.\<close>

definition final_state :: "state outcome \<Rightarrow> state" where
  "final_state r = (case r of Done s \<Rightarrow> s | Abort err s \<Rightarrow> s)"

section \<open>A concrete portal, folder and run\<close>

text \<open>
  The scenario of the specification: a mod \<open>m\<close> with a release for host 0.18 at time
  100 and a release for host 1.0 at time 200; a name the portal does not know; a stand-in
  digest that tells the two archives apart; an artifact source that answers with an
  HTML page when the token is empty.
\<close>

definition rel_old :: release where
  "rel_old =
     \<lparr>file_name = ''m_1.0.0.zip'', download_url = ''/download/m/1'', sha1 = ''aa'',
      mod_version = ''1.0.0'', info_factorio_version = [0, 18], released_at = 100\<rparr>"

definition rel_new :: release where
  "rel_new =
     \<lparr>file_name = ''m_2.0.0.zip'', download_url = ''/download/m/2'', sha1 = ''bb'',
      mod_version = ''2.0.0'', info_factorio_version = [1, 0], released_at = 200\<rparr>"

definition example_env :: env where
  "example_env =
     \<lparr>portal = (\<lambda>n. if n = ''m'' then Status_200 (Some [rel_old, rel_new]) else Status_Other),
      artifact = (\<lambda>url user tok.
         if tok = [] then \<lparr>content_type = Some ''text/html'', content_length = None, chunks = []\<rparr>
         else \<lparr>content_type = Some ''application/zip'', content_length = Some 1, chunks = [[2]]\<rparr>),
      sha1_hexdigest = (\<lambda>content. if content = [2] then ''bb'' else if content = [1] then ''aa'' else ''00''),
      config_file = None,
      abspath = (\<lambda>p. p),
      path_exists = (\<lambda>p. p = ''/opt/factorio/mods'' \<or> p = ''/opt/factorio/mods/mod-list.json''),
      path_isdir = (\<lambda>p. p = ''/opt/factorio/mods''),
      path_isfile = (\<lambda>p. p = ''/opt/factorio/mods/mod-list.json''),
      binary_version = Probe_Version 1 0,
      git_available = True\<rparr>"

definition base_entry :: mod_entry where
  "base_entry = \<lparr>name = ''base'', enabled = True\<rparr>"

definition gone_entry :: mod_entry where
  "gone_entry = \<lparr>name = ''gone'', enabled = True\<rparr>"

definition m_entry :: mod_entry where
  "m_entry = \<lparr>name = ''m'', enabled = True\<rparr>"

definition old_only :: "string \<rightharpoonup> bytes" where
  "old_only = [''m_1.0.0.zip'' \<mapsto> [1]]"

definition both_present :: "string \<rightharpoonup> bytes" where
  "both_present = [''m_1.0.0.zip'' \<mapsto> [1], ''m_2.0.0.zip'' \<mapsto> [2]]"

text \<open>A state as \<^verbatim>\<open>load_config\<close> leaves it, for host version 1.0.\<close>

definition example_state :: "bool \<Rightarrow> bool \<Rightarrow> (string \<rightharpoonup> bytes) \<Rightarrow> mod_entry list \<Rightarrow> state" where
  "example_state dry downgrade folder mods =
     \<lparr>verbose = False, dry_run = dry, factorio_path = Some ''/opt/factorio'',
      factorio_version = Some [1, 0], mods_folder_path = ''/opt/factorio/mods'',
      mods_list_path = ''/opt/factorio/mods/mod-list.json'', username = ''user'',
      token = ''secret'', should_reload = False, service_name = None,
      has_to_reload = False, should_downgrade = downgrade, files = folder,
      mods_list_json = mods, requests = [], downloads = [], restarts = []\<rparr>"

text \<open>The dictionary \<^verbatim>\<open>glob\<close> as the module defines it, before \<^verbatim>\<open>load_config\<close>.\<close>

definition initial_state :: "(string \<rightharpoonup> bytes) \<Rightarrow> mod_entry list \<Rightarrow> state" where
  "initial_state folder mods =
     \<lparr>verbose = False, dry_run = False, factorio_path = None, factorio_version = None,
      mods_folder_path = [], mods_list_path = [], username = [], token = [],
      should_reload = False, service_name = None, has_to_reload = False,
      should_downgrade = False, files = folder, mods_list_json = mods, requests = [],
      downloads = [], restarts = []\<rparr>"

text \<open>\<^verbatim>\<open>-p /opt/factorio -u user -U\<close>: an update asked with a user name and no token.\<close>

definition args_no_token :: args where
  "args_no_token =
     \<lparr>argv_length = 6, args_factorio_path = Some ''/opt/factorio'',
      args_username = Some ''user'', args_token = None, args_dry_run = False,
      args_mod_name_to_install = None, args_should_update = True,
      args_enabled_only = False, args_list_mods = False, args_remove_mod_name = None,
      args_list_enable_mods = [], args_list_disable_mods = [],
      args_should_downgrade = False, args_should_reload = False,
      args_service_name = None, args_verbose = False,
      args_disable_mod_manager_update = False\<rparr>"

text \<open>\<^verbatim>\<open>-p /opt/factorio -u user -t secret -d -U -i m\<close>: a dry run of update and install.\<close>

definition args_dry_update :: args where
  "args_dry_update =
     \<lparr>argv_length = 11, args_factorio_path = Some ''/opt/factorio'',
      args_username = Some ''user'', args_token = Some ''secret'', args_dry_run = True,
      args_mod_name_to_install = Some ''m'', args_should_update = True,
      args_enabled_only = False, args_list_mods = False, args_remove_mod_name = None,
      args_list_enable_mods = [], args_list_disable_mods = [],
      args_should_downgrade = False, args_should_reload = False,
      args_service_name = None, args_verbose = False,
      args_disable_mod_manager_update = False\<rparr>"

section \<open>The part of the world a run can change\<close>

text \<open>
  The mods folder, mod-list.json, the restarts of the service and the artifact requests:
  \<open>world_unchanged s s'\<close> says that \<open>s'\<close> has them as \<open>s\<close> has.
\<close>

definition world_unchanged :: "state \<Rightarrow> state \<Rightarrow> bool" where
  "world_unchanged s s' =
     (files s' = files s \<and> mods_list_json s' = mods_list_json s
      \<and> restarts s' = restarts s \<and> downloads s' = downloads s)"

section \<open>Facts about the utility functions\<close>

lemma read_blocks_append: "read_blocks hasher rest = hasher @ rest"
proof (induction hasher rest rule: read_blocks.induct)
  case (1 hasher rest)
  show ?case
  proof (cases "rest = []")
    case True
    then show ?thesis by (subst read_blocks.simps) simp
  next
    case False
    then have "0 < length (take BLOCKSIZE rest)" by (simp add: BLOCKSIZE_def)
    with 1 have "read_blocks (hasher @ take BLOCKSIZE rest) (drop BLOCKSIZE rest)
        = (hasher @ take BLOCKSIZE rest) @ drop BLOCKSIZE rest"
      by simp
    moreover have "read_blocks hasher rest
        = read_blocks (hasher @ take BLOCKSIZE rest) (drop BLOCKSIZE rest)"
      using \<open>0 < length (take BLOCKSIZE rest)\<close> by (subst read_blocks.simps) (simp add: Let_def)
    ultimately show ?thesis by simp
  qed
qed

lemma get_file_sha1_whole: "get_file_sha1 e content = sha1_hexdigest e content"
  by (simp add: get_file_sha1_def read_blocks_append)

lemma component_append_zeros:
  assumes "\<forall>z\<in>set zs. z = 0"
  shows "component (xs @ zs) i = component xs i"
proof (cases "i < length xs")
  case True
  then show ?thesis by (simp add: component_def nth_append)
next
  case False
  show ?thesis
  proof (cases "i < length xs + length zs")
    case True
    with False have "i - length xs < length zs" by arith
    then have "zs ! (i - length xs) \<in> set zs" by simp
    with assms have "zs ! (i - length xs) = 0" by blast
    with False True show ?thesis by (simp add: component_def nth_append)
  next
    case False
    then show ?thesis by (simp add: component_def)
  qed
qed

lemma cmpkey_decompose: "\<exists>zs. v = cmpkey v @ zs \<and> (\<forall>z\<in>set zs. z = 0)"
proof -
  let ?zs = "rev (takeWhile (\<lambda>n. n = 0) (rev v))"
  have "rev (dropWhile (\<lambda>n. n = 0) (rev v)) @ ?zs
      = rev (takeWhile (\<lambda>n. n = 0) (rev v) @ dropWhile (\<lambda>n. n = 0) (rev v))"
    by (simp only: rev_append)
  also have "\<dots> = v" by simp
  finally have "v = cmpkey v @ ?zs" by (simp add: cmpkey_def)
  moreover have "\<forall>z\<in>set ?zs. z = 0"
    by (auto dest: set_takeWhileD)
  ultimately show ?thesis by blast
qed

lemma component_cmpkey: "component (cmpkey v) i = component v i"
proof -
  obtain zs where "v = cmpkey v @ zs" and "\<forall>z\<in>set zs. z = 0"
    using cmpkey_decompose by blast
  then show ?thesis using component_append_zeros [of zs "cmpkey v" i] by simp
qed

lemma version_eq_major_minor:
  assumes "version_eq a b"
  shows "major_minor a = major_minor b"
proof -
  from assms have "cmpkey a = cmpkey b" by (simp add: version_eq_def)
  then have "component (cmpkey a) i = component (cmpkey b) i" for i by simp
  then have "component a i = component b i" for i by (simp add: component_cmpkey)
  then show ?thesis by (simp add: major_minor_def)
qed

lemma sorted_desc: "sorted (map (\<lambda>i. - released_at i) (sorted_by_released_at rels))"
  by (simp add: sorted_by_released_at_def)

lemma set_sorted_by_released_at: "set (sorted_by_released_at rels) = set rels"
  by (simp add: sorted_by_released_at_def)

lemma filter_head_most_recent:
  assumes "filter P (sorted_by_released_at rels) = selected # others"
      and "r \<in> set rels" and "P r"
  shows "released_at r \<le> released_at selected"
proof -
  have "sorted (map (\<lambda>i. - released_at i) (filter P (sorted_by_released_at rels)))"
    using sorted_desc by (rule sorted_filter)
  with assms(1) have "\<forall>x\<in>set others. - released_at selected \<le> - released_at x"
    by simp
  moreover from assms(2,3) have "r \<in> set (filter P (sorted_by_released_at rels))"
    by (simp add: set_sorted_by_released_at)
  then have "r \<in> set (selected # others)" by (simp only: assms(1))
  then have "r = selected \<or> r \<in> set others" by simp
  ultimately show ?thesis by auto
qed

lemma filter_sorted_commute:
  "filter P (sorted_by_released_at rels) = sorted_by_released_at (filter P rels)"
  by (simp add: sorted_by_released_at_def filter_sort)



section \<open>Release resolution without downgrade\<close>

text \<open>
  C1. With \<^verbatim>\<open>should_downgrade\<close> off, \<^verbatim>\<open>get_mod_infos\<close> returns for every release
  list of the portal and every host version; when the filtered list
  \<^verbatim>\<open>same_version_releases\<close> is not empty, its first element (the release the callers
  take) is one of the portal's releases whose required host version equals the host
  version as \<^verbatim>\<open>packaging\<close> compares versions, so major and minor agree; when it
  is empty, no release of the portal has a required version equal to the host version.
\<close>

theorem get_mod_infos_exact_version:
  assumes "portal e (name entry) = Status_200 (Some rels)"
      and "\<not> should_downgrade s"
  shows "\<exists>infos s'. get_mod_infos e entry s = Done (Some infos, s')
           \<and> (case same_version_releases infos of
                 [] \<Rightarrow>
                   \<not> (\<exists>r\<in>set rels. \<exists>t. factorio_version s = Some t
                          \<and> version_eq (info_factorio_version r) t)
               | selected # others \<Rightarrow>
                   selected \<in> set rels
                   \<and> (\<exists>t. factorio_version s = Some t
                          \<and> version_eq (info_factorio_version selected) t
                          \<and> major_minor (info_factorio_version selected) = major_minor t))"
proof -
  let ?P = "\<lambda>release. case factorio_version s of
                None \<Rightarrow> False
              | Some t \<Rightarrow> version_eq (info_factorio_version release) t"
  let ?filtered = "filter ?P (sorted_by_released_at rels)"
  let ?infos = "\<lparr>info_name = name entry, info_enabled = enabled entry,
                  releases = sorted_by_released_at rels,
                  same_version_releases = ?filtered\<rparr>"
  have run: "get_mod_infos e entry s
      = Done (Some ?infos, s\<lparr>requests := requests s @ [name entry]\<rparr>)"
    using assms by (simp add: get_mod_infos_def filter_releases_def Let_def)
  have "case ?filtered of
          [] \<Rightarrow>
            \<not> (\<exists>r\<in>set rels. \<exists>t. factorio_version s = Some t
                   \<and> version_eq (info_factorio_version r) t)
        | selected # others \<Rightarrow>
            selected \<in> set rels
            \<and> (\<exists>t. factorio_version s = Some t
                   \<and> version_eq (info_factorio_version selected) t
                   \<and> major_minor (info_factorio_version selected) = major_minor t)"
  proof (cases ?filtered)
    case Nil
    then have "\<forall>r\<in>set rels. \<not> ?P r"
      by (simp add: filter_empty_conv set_sorted_by_released_at)
    then have "\<not> (\<exists>r\<in>set rels. \<exists>t. factorio_version s = Some t
                   \<and> version_eq (info_factorio_version r) t)"
      by auto
    with Nil show ?thesis by simp
  next
    case (Cons selected others)
    then have "selected \<in> set ?filtered" by simp
    then have mem: "selected \<in> set rels" and p: "?P selected"
      by (simp_all add: set_sorted_by_released_at)
    from p obtain t where t: "factorio_version s = Some t"
        and eq: "version_eq (info_factorio_version selected) t"
      by (cases "factorio_version s") simp_all
    from eq have "major_minor (info_factorio_version selected) = major_minor t"
      by (rule version_eq_major_minor)
    with Cons mem t eq show ?thesis by simp
  qed
  with run show ?thesis by simp
qed

theorem get_mod_infos_exact_version_witness:
  "portal example_env (name m_entry) = Status_200 (Some [rel_old, rel_new])
   \<and> \<not> should_downgrade (example_state False False old_only [base_entry, m_entry])
   \<and> (\<exists>infos s'. get_mod_infos example_env m_entry
                       (example_state False False old_only [base_entry, m_entry])
                     = Done (Some infos, s')
           \<and> (case same_version_releases infos of
                 [] \<Rightarrow>
                   \<not> (\<exists>r\<in>set [rel_old, rel_new]. \<exists>t.
                          factorio_version (example_state False False old_only [base_entry, m_entry])
                            = Some t
                          \<and> version_eq (info_factorio_version r) t)
               | selected # others \<Rightarrow>
                   selected \<in> set [rel_old, rel_new]
                   \<and> (\<exists>t. factorio_version (example_state False False old_only [base_entry, m_entry])
                            = Some t
                          \<and> version_eq (info_factorio_version selected) t
                          \<and> major_minor (info_factorio_version selected) = major_minor t)))"
proof -
  have h1: "portal example_env (name m_entry) = Status_200 (Some [rel_old, rel_new])"
    by (simp add: example_env_def m_entry_def)
  have h2: "\<not> should_downgrade (example_state False False old_only [base_entry, m_entry])"
    by (simp add: example_state_def)
  show ?thesis
    by (rule conjI [OF h1 conjI [OF h2 get_mod_infos_exact_version [OF h1 h2]]])
qed

section \<open>Release resolution with downgrade\<close>

text \<open>
  C2. With \<^verbatim>\<open>should_downgrade\<close> on, when \<^verbatim>\<open>get_mod_infos\<close> returns and the
  filtered list is not empty, its first element (the release the callers take) is one of
  the portal's releases, its required host version is at most the host version, no
  release of the portal with a required version at most the host version has a later
  \<^verbatim>\<open>released_at\<close>, and it is the first element of the compatible releases sorted by
  \<^verbatim>\<open>released_at\<close>, most recent first.
\<close>

theorem get_mod_infos_downgrade_most_recent:
  assumes portal: "portal e (name entry) = Status_200 (Some rels)"
      and downgrade: "should_downgrade s"
      and run: "get_mod_infos e entry s = Done (Some infos, s')"
      and sel: "same_version_releases infos = selected # others"
  shows "\<exists>t. factorio_version s = Some t
           \<and> selected \<in> set rels
           \<and> version_le (info_factorio_version selected) t
           \<and> (\<forall>r\<in>set rels. version_le (info_factorio_version r) t
                  \<longrightarrow> released_at r \<le> released_at selected)
           \<and> selected = hd (sorted_by_released_at
                             (filter (\<lambda>r. version_le (info_factorio_version r) t) rels))"
proof (cases "factorio_version s")
  case None
  with portal downgrade run sel show ?thesis
    by (auto simp: get_mod_infos_def filter_releases_def Let_def split: if_splits)
next
  case (Some t)
  let ?P = "\<lambda>r. version_le (info_factorio_version r) t"
  from portal downgrade run Some
  have "same_version_releases infos = filter ?P (sorted_by_released_at rels)"
    by (auto simp: get_mod_infos_def filter_releases_def Let_def)
  with sel have filtered: "filter ?P (sorted_by_released_at rels) = selected # others"
    by simp
  then have "selected \<in> set (filter ?P (sorted_by_released_at rels))" by simp
  then have mem: "selected \<in> set rels" and le: "?P selected"
    by (simp_all add: set_sorted_by_released_at)
  have recent: "\<forall>r\<in>set rels. ?P r \<longrightarrow> released_at r \<le> released_at selected"
    using filter_head_most_recent [OF filtered] by blast
  from filtered have "sorted_by_released_at (filter ?P rels) = selected # others"
    by (simp add: filter_sorted_commute)
  then have "selected = hd (sorted_by_released_at (filter ?P rels))" by simp
  with Some mem le recent show ?thesis by simp
qed

theorem get_mod_infos_downgrade_most_recent_witness:
  "\<exists>t. factorio_version (example_state False True old_only [base_entry, m_entry]) = Some t
           \<and> rel_new \<in> set [rel_old, rel_new]
           \<and> version_le (info_factorio_version rel_new) t
           \<and> (\<forall>r\<in>set [rel_old, rel_new]. version_le (info_factorio_version r) t
                  \<longrightarrow> released_at r \<le> released_at rel_new)
           \<and> rel_new = hd (sorted_by_released_at
                             (filter (\<lambda>r. version_le (info_factorio_version r) t) [rel_old, rel_new]))"
proof -
  let ?s = "example_state False True old_only [base_entry, m_entry]"
  have h1: "portal example_env (name m_entry) = Status_200 (Some [rel_old, rel_new])"
    by (simp add: example_env_def m_entry_def)
  have h2: "should_downgrade ?s"
    by (simp add: example_state_def)
  have h3: "get_mod_infos example_env m_entry ?s
      = Done (Some \<lparr>info_name = ''m'', info_enabled = True, releases = [rel_new, rel_old],
                    same_version_releases = [rel_new, rel_old]\<rparr>,
              ?s\<lparr>requests := [''m'']\<rparr>)"
    by (simp add: get_mod_infos_def filter_releases_def sorted_by_released_at_def
        example_env_def m_entry_def example_state_def rel_old_def rel_new_def
        version_le_def cmpkey_def Let_def)
  have h4: "same_version_releases \<lparr>info_name = ''m'', info_enabled = True,
      releases = [rel_new, rel_old], same_version_releases = [rel_new, rel_old]\<rparr>
      = rel_new # [rel_old]"
    by simp
  show ?thesis
    by (rule get_mod_infos_downgrade_most_recent [OF h1 h2 h3 h4])
qed

section \<open>What the file operations change\<close>

lemma remove_file_files:
  "files (remove_file p s) q = (if \<not> dry_run s \<and> q = p then None else files s q)"
  by (auto simp: remove_file_def dom_def)

lemma remove_file_fields:
  "dry_run (remove_file p s) = dry_run s"
  "has_to_reload (remove_file p s) = has_to_reload s"
  "downloads (remove_file p s) = downloads s"
  "mods_list_json (remove_file p s) = mods_list_json s"
  "restarts (remove_file p s) = restarts s"
  "requests (remove_file p s) = requests s"
  "username (remove_file p s) = username s"
  "token (remove_file p s) = token s"
  "should_reload (remove_file p s) = should_reload s"
  "service_name (remove_file p s) = service_name s"
  by (simp_all add: remove_file_def)

lemma fold_remove_file_fields:
  "dry_run (fold (\<lambda>release. remove_file (file_name release)) rs s) = dry_run s"
  "has_to_reload (fold (\<lambda>release. remove_file (file_name release)) rs s) = has_to_reload s"
  "downloads (fold (\<lambda>release. remove_file (file_name release)) rs s) = downloads s"
  "mods_list_json (fold (\<lambda>release. remove_file (file_name release)) rs s) = mods_list_json s"
  "restarts (fold (\<lambda>release. remove_file (file_name release)) rs s) = restarts s"
  "requests (fold (\<lambda>release. remove_file (file_name release)) rs s) = requests s"
  "username (fold (\<lambda>release. remove_file (file_name release)) rs s) = username s"
  "token (fold (\<lambda>release. remove_file (file_name release)) rs s) = token s"
  "should_reload (fold (\<lambda>release. remove_file (file_name release)) rs s) = should_reload s"
  "service_name (fold (\<lambda>release. remove_file (file_name release)) rs s) = service_name s"
  by (induction rs arbitrary: s; simp add: remove_file_fields)+

lemma fold_remove_file_files:
  "files (fold (\<lambda>release. remove_file (file_name release)) rs s) q
     = (if \<not> dry_run s \<and> q \<in> file_name ` set rs then None else files s q)"
  by (induction rs arbitrary: s) (auto simp: remove_file_files remove_file_fields)

lemma get_mod_infos_Done:
  "get_mod_infos e entry s = Done (r, s') \<Longrightarrow> s' = s\<lparr>requests := requests s @ [name entry]\<rparr>"
  by (auto simp: get_mod_infos_def Let_def split: api_response.splits option.splits sum.splits)

lemma get_mod_infos_Abort:
  "get_mod_infos e entry s = Abort err s' \<Longrightarrow> s' = s\<lparr>requests := requests s @ [name entry]\<rparr>"
  by (auto simp: get_mod_infos_def Let_def split: api_response.splits option.splits sum.splits)

lemma get_mod_infos_releases:
  "get_mod_infos e entry s = Done (Some infos, s')
     \<Longrightarrow> set (same_version_releases infos) \<subseteq> set (releases infos)"
  by (auto simp: get_mod_infos_def filter_releases_def Let_def
           split: api_response.splits option.splits sum.splits if_splits)

lemma check_file_and_sha_iff:
  "check_file_and_sha e p d s = (\<exists>content. files s p = Some content \<and> d = sha1_hexdigest e content)"
  by (simp add: check_file_and_sha_def get_file_sha1_whole split: option.splits)

section \<open>The up-to-date check\<close>

text \<open>
  C4. Let \<^verbatim>\<open>get_mod_infos\<close> return the infos of a mod with a first filtered release
  \<open>selected\<close>, and let the mods folder hold a file named as that release whose SHA-1
  (read in blocks of 65536 bytes, which is the digest of the whole content) is the
  release's published digest. Then \<^verbatim>\<open>check_file_and_sha\<close> answers true, and both
  callers return without a download: after \<^verbatim>\<open>update_mods\<close>' loop body no artifact
  request was made, \<^verbatim>\<open>has_to_reload\<close> is as before, the file is still there with
  its content, and every file of the folder is either gone or unchanged (none is
  written); after \<^verbatim>\<open>install_mod\<close> no artifact request was made,
  \<^verbatim>\<open>has_to_reload\<close> is as before and the folder is unchanged. What the callers
  do before the check (the deletion of superseded files in \<^verbatim>\<open>update_mods\<close>, the
  write of mod-list.json in \<^verbatim>\<open>install_mod\<close>) is the matter of C5 and C10.
\<close>

theorem check_file_and_sha_skips_download:
  assumes run: "get_mod_infos e entry s = Done (Some infos, s1)"
      and sel: "same_version_releases infos = selected # others"
      and present: "files s (file_name selected) = Some content"
      and digest: "sha1_hexdigest e content = sha1 selected"
  shows "check_file_and_sha e (file_name selected) (sha1 selected) s1
         \<and> (\<exists>s'. update_mod e enabled_only entry s = Done s'
                \<and> downloads s' = downloads s
                \<and> has_to_reload s' = has_to_reload s
                \<and> files s' (file_name selected) = Some content
                \<and> (\<forall>p. files s' p = None \<or> files s' p = files s p))
         \<and> (enabled entry \<longrightarrow>
               (\<exists>s'. install_mod e (name entry) s = Done s'
                  \<and> downloads s' = downloads s
                  \<and> has_to_reload s' = has_to_reload s
                  \<and> files s' = files s))"
proof -
  from run have s1: "s1 = s\<lparr>requests := requests s @ [name entry]\<rparr>"
    by (rule get_mod_infos_Done)
  let ?delete_list = "filter (\<lambda>release. file_name release \<notin> set [file_name selected])
                        (releases infos)"
  let ?s2 = "fold (\<lambda>release. remove_file (file_name release)) ?delete_list s1"
  have check1: "check_file_and_sha e (file_name selected) (sha1 selected) s1"
    using present digest by (simp add: check_file_and_sha_iff s1)
  have kept: "files ?s2 (file_name selected) = Some content"
    using present by (auto simp: fold_remove_file_files s1)
  then have check2: "check_file_and_sha e (file_name selected) (sha1 selected) ?s2"
    using digest by (simp add: check_file_and_sha_iff)
  have frame2: "\<forall>p. files ?s2 p = None \<or> files ?s2 p = files s p"
    by (simp add: fold_remove_file_files s1)
  have upd: "\<exists>s'. update_mod e enabled_only entry s = Done s'
                \<and> downloads s' = downloads s
                \<and> has_to_reload s' = has_to_reload s
                \<and> files s' (file_name selected) = Some content
                \<and> (\<forall>p. files s' p = None \<or> files s' p = files s p)"
  proof (cases "enabled_only \<and> \<not> info_enabled infos")
    case True
    with run have "update_mod e enabled_only entry s = Done s1"
      by (simp add: update_mod_def)
    with present show ?thesis by (simp add: s1)
  next
    case False
    with run sel check2 have "update_mod e enabled_only entry s = Done ?s2"
      by (auto simp: update_mod_def Let_def)
    moreover have "downloads ?s2 = downloads s" "has_to_reload ?s2 = has_to_reload s"
      by (simp_all add: fold_remove_file_fields s1)
    ultimately show ?thesis using kept frame2 by simp
  qed
  have inst: "\<exists>s'. install_mod e (name entry) s = Done s'
                  \<and> downloads s' = downloads s
                  \<and> has_to_reload s' = has_to_reload s
                  \<and> files s' = files s" if "enabled entry"
  proof -
    from that have entry: "\<lparr>name = name entry, enabled = True\<rparr> = entry" by simp
    let ?s2 = "write_mods_list (mods_list_json s1 @ [entry]) s1"
    have fields: "files ?s2 = files s" "downloads ?s2 = downloads s"
        "has_to_reload ?s2 = has_to_reload s"
      by (simp_all add: write_mods_list_def s1)
    with present digest have "check_file_and_sha e (file_name selected) (sha1 selected) ?s2"
      by (simp add: check_file_and_sha_iff)
    with run sel have "install_mod e (name entry) s = Done ?s2"
      by (simp add: install_mod_def entry read_mods_list_def Let_def)
    with fields show ?thesis by simp
  qed
  from check1 upd inst show ?thesis by blast
qed

theorem check_file_and_sha_skips_download_witness:
  "check_file_and_sha example_env (file_name rel_new) (sha1 rel_new)
     ((example_state False False both_present [base_entry, m_entry])\<lparr>requests := [''m'']\<rparr>)
   \<and> (\<exists>s'. update_mod example_env False m_entry
                 (example_state False False both_present [base_entry, m_entry]) = Done s'
          \<and> downloads s' = downloads (example_state False False both_present [base_entry, m_entry])
          \<and> has_to_reload s'
              = has_to_reload (example_state False False both_present [base_entry, m_entry])
          \<and> files s' (file_name rel_new) = Some [2]
          \<and> (\<forall>p. files s' p = None
                \<or> files s' p = files (example_state False False both_present [base_entry, m_entry]) p))
   \<and> (\<exists>s'. install_mod example_env (name m_entry)
                 (example_state False False both_present [base_entry, m_entry]) = Done s'
          \<and> downloads s' = downloads (example_state False False both_present [base_entry, m_entry])
          \<and> has_to_reload s'
              = has_to_reload (example_state False False both_present [base_entry, m_entry])
          \<and> files s' = files (example_state False False both_present [base_entry, m_entry]))"
proof -
  let ?s = "example_state False False both_present [base_entry, m_entry]"
  let ?infos = "\<lparr>info_name = ''m'', info_enabled = True, releases = [rel_new, rel_old],
                  same_version_releases = [rel_new]\<rparr>"
  have h1: "get_mod_infos example_env m_entry ?s = Done (Some ?infos, ?s\<lparr>requests := [''m'']\<rparr>)"
    by (simp add: get_mod_infos_def filter_releases_def sorted_by_released_at_def
        example_env_def m_entry_def example_state_def rel_old_def rel_new_def
        version_eq_def cmpkey_def Let_def)
  have h2: "same_version_releases ?infos = rel_new # []" by simp
  have h3: "files ?s (file_name rel_new) = Some [2]"
    by (simp add: example_state_def both_present_def rel_new_def)
  have h4: "sha1_hexdigest example_env [2] = sha1 rel_new"
    by (simp add: example_env_def rel_new_def)
  have h5: "enabled m_entry" by (simp add: m_entry_def)
  from check_file_and_sha_skips_download [OF h1 h2 h3 h4, of False] h5
  show ?thesis by blast
qed

section \<open>What a download changes\<close>

lemma final_state_simps [simp]:
  "final_state (Done s) = s"
  "final_state (Abort err s) = s"
  by (simp_all add: final_state_def)

lemma append_file_fields:
  "files (append_file p chunk s) q
     = (if q = p then Some (case files s p of None \<Rightarrow> chunk | Some written \<Rightarrow> written @ chunk)
        else files s q)"
  "dry_run (append_file p chunk s) = dry_run s"
  "has_to_reload (append_file p chunk s) = has_to_reload s"
  "downloads (append_file p chunk s) = downloads s"
  "mods_list_json (append_file p chunk s) = mods_list_json s"
  "restarts (append_file p chunk s) = restarts s"
  "requests (append_file p chunk s) = requests s"
  "should_reload (append_file p chunk s) = should_reload s"
  "service_name (append_file p chunk s) = service_name s"
  by (simp_all add: append_file_def)

lemma write_chunks_other_files:
  "q \<noteq> p \<Longrightarrow> files (final_state (write_chunks n p cs s)) q = files s q"
  by (induction cs arbitrary: s) (simp_all add: Let_def append_file_fields)

lemma write_chunks_fields:
  "dry_run (final_state (write_chunks n p cs s)) = dry_run s"
  "has_to_reload (final_state (write_chunks n p cs s)) = has_to_reload s"
  "downloads (final_state (write_chunks n p cs s)) = downloads s"
  "mods_list_json (final_state (write_chunks n p cs s)) = mods_list_json s"
  "restarts (final_state (write_chunks n p cs s)) = restarts s"
  "requests (final_state (write_chunks n p cs s)) = requests s"
  "should_reload (final_state (write_chunks n p cs s)) = should_reload s"
  "service_name (final_state (write_chunks n p cs s)) = service_name s"
  by (induction cs arbitrary: s; simp add: Let_def append_file_fields)+

lemma write_chunks_present:
  "files s p \<noteq> None \<Longrightarrow> files (final_state (write_chunks n p cs s)) p \<noteq> None"
  by (induction cs arbitrary: s) (simp_all add: Let_def append_file_fields)

lemma download_mod_dry_run: "dry_run s \<Longrightarrow> download_mod e p url s = Done s"
  by (simp add: download_mod_def)

lemma download_mod_other_files:
  "q \<noteq> p \<Longrightarrow> files (final_state (download_mod e p url s)) q = files s q"
  by (simp add: download_mod_def Let_def write_chunks_other_files split: option.splits)

lemma download_mod_fields:
  "dry_run (final_state (download_mod e p url s)) = dry_run s"
  "has_to_reload (final_state (download_mod e p url s)) = has_to_reload s"
  "mods_list_json (final_state (download_mod e p url s)) = mods_list_json s"
  "restarts (final_state (download_mod e p url s)) = restarts s"
  "requests (final_state (download_mod e p url s)) = requests s"
  "should_reload (final_state (download_mod e p url s)) = should_reload s"
  "service_name (final_state (download_mod e p url s)) = service_name s"
  by (simp_all add: download_mod_def Let_def write_chunks_fields split: option.splits)

lemma download_mod_Done_present:
  assumes "download_mod e p url s = Done s'" and "\<not> dry_run s"
  shows "files s' p \<noteq> None"
proof -
  let ?r = "artifact e url (username s) (token s)"
  let ?s1 = "s\<lparr>downloads := downloads s @ [url]\<rparr>"
  from assms have zip: "content_type ?r = Some ''application/zip''"
    by (auto simp: download_mod_def Let_def split: if_splits)
  show ?thesis
  proof (cases "content_length ?r")
    case None
    with assms zip show ?thesis by (auto simp: download_mod_def Let_def)
  next
    case (Some n)
    let ?s2 = "?s1\<lparr>files := (files ?s1)(p \<mapsto> [])\<rparr>"
    from assms zip Some have "write_chunks n p (chunks ?r) ?s2 = Done s'"
      by (simp add: download_mod_def Let_def)
    then have "s' = final_state (write_chunks n p (chunks ?r) ?s2)" by simp
    moreover have "files ?s2 p \<noteq> None" by simp
    ultimately show ?thesis using write_chunks_present by blast
  qed
qed

lemma get_mod_infos_portal:
  "get_mod_infos e entry s = Done (Some infos, s1)
     \<Longrightarrow> \<exists>rels. portal e (name entry) = Status_200 (Some rels)
              \<and> releases infos = sorted_by_released_at rels"
  by (auto simp: get_mod_infos_def Let_def
           split: api_response.splits option.splits sum.splits)

lemmas example_defs =
  example_env_def example_state_def initial_state_def rel_old_def rel_new_def
  base_entry_def gone_entry_def m_entry_def old_only_def both_present_def

lemmas run_defs =
  get_mod_infos_def filter_releases_def sorted_by_released_at_def version_eq_def
  version_le_def cmpkey_def update_mod_def update_mods_def install_mod_def remove_mod_def
  read_mods_list_def write_mods_list_def remove_file_def check_file_and_sha_def
  get_file_sha1_whole download_mod_def append_file_def Let_def

section \<open>A response that is not an archive\<close>

text \<open>
  C7. When \<^verbatim>\<open>download_mod\<close> makes its request (the run is not a dry run) and the
  \<^verbatim>\<open>Content-Type\<close> of the response is not \<^verbatim>\<open>application/zip\<close>, the call leaves
  through \<^verbatim>\<open>exit(1)\<close>: the state it leaves differs from the one it found by the
  recorded request only, so no file was written, and whatever was to follow the call is
  not run.
\<close>

theorem download_mod_not_zip_is_fatal:
  assumes "\<not> dry_run s"
      and "content_type (artifact e url (username s) (token s)) \<noteq> Some ''application/zip''"
  shows "download_mod e file_path url s
           = Abort (SystemExit 1) (s\<lparr>downloads := downloads s @ [url]\<rparr>)
         \<and> files (final_state (download_mod e file_path url s)) = files s
         \<and> (\<forall>f. and_then (download_mod e file_path url s) f
                  = Abort (SystemExit 1) (s\<lparr>downloads := downloads s @ [url]\<rparr>))"
  using assms by (simp add: download_mod_def Let_def and_then_def)

theorem download_mod_not_zip_is_fatal_witness:
  "\<not> dry_run ((example_state False False old_only [base_entry, m_entry])\<lparr>token := []\<rparr>)
   \<and> content_type (artifact example_env ''/download/m/2''
        (username ((example_state False False old_only [base_entry, m_entry])\<lparr>token := []\<rparr>))
        (token ((example_state False False old_only [base_entry, m_entry])\<lparr>token := []\<rparr>)))
      \<noteq> Some ''application/zip''
   \<and> download_mod example_env ''m_2.0.0.zip'' ''/download/m/2''
        ((example_state False False old_only [base_entry, m_entry])\<lparr>token := []\<rparr>)
       = Abort (SystemExit 1)
           ((example_state False False old_only [base_entry, m_entry])
              \<lparr>token := [], downloads := [''/download/m/2'']\<rparr>)"
proof -
  let ?s = "(example_state False False old_only [base_entry, m_entry])\<lparr>token := []\<rparr>"
  have h1: "\<not> dry_run ?s" by (simp add: example_state_def)
  have h2: "content_type (artifact example_env ''/download/m/2'' (username ?s) (token ?s))
      \<noteq> Some ''application/zip''"
    by (simp add: example_env_def example_state_def)
  from download_mod_not_zip_is_fatal [OF h1 h2, of "''m_2.0.0.zip''"]
  have "download_mod example_env ''m_2.0.0.zip'' ''/download/m/2'' ?s
          = Abort (SystemExit 1) (?s\<lparr>downloads := downloads ?s @ [''/download/m/2'']\<rparr>)"
    by blast
  with h1 h2 show ?thesis by (simp add: example_state_def)
qed

section \<open>Superseded release files\<close>

text \<open>
  C5 as stated fails in a dry run: \<^verbatim>\<open>remove_file\<close> only prints then, so an update
  that keeps the up-to-date file of the selected release leaves the file of the other
  release in the folder, and the mod has two archives.
\<close>

theorem update_mod_dry_run_counterexample:
  "files (final_state (update_mod example_env False m_entry
            (example_state True False both_present [base_entry, m_entry]))) ''m_1.0.0.zip''
     = Some [1]
   \<and> files (final_state (update_mod example_env False m_entry
            (example_state True False both_present [base_entry, m_entry]))) ''m_2.0.0.zip''
     = Some [2]"
  by (simp add: run_defs example_defs)

text \<open>
  C5, amended. Outside a dry run, for a mod that \<^verbatim>\<open>update_mods\<close> does not skip and
  whose filtered list starts with \<open>selected\<close>: however the loop body ends, no file
  named as a known release with another file name than the selected one is left, and
  files whose names are not those of known releases are untouched (the choice is by
  equality of file names alone); and when the loop body returns, after keeping the file
  or downloading it, the selected file is the only known release file in the folder.
\<close>

theorem update_mod_deletes_superseded:
  assumes wet: "\<not> dry_run s"
      and run: "get_mod_infos e entry s = Done (Some infos, s1)"
      and sel: "same_version_releases infos = selected # others"
      and go: "\<not> (enabled_only \<and> \<not> info_enabled infos)"
  shows "(\<forall>r\<in>set (releases infos). file_name r \<noteq> file_name selected
            \<longrightarrow> files (final_state (update_mod e enabled_only entry s)) (file_name r) = None)
         \<and> (\<forall>q. q \<notin> file_name ` set (releases infos)
               \<longrightarrow> files (final_state (update_mod e enabled_only entry s)) q = files s q)
         \<and> (\<forall>s'. update_mod e enabled_only entry s = Done s'
               \<longrightarrow> {n \<in> file_name ` set (releases infos). files s' n \<noteq> None}
                     = {file_name selected})"
proof -
  from run have s1: "s1 = s\<lparr>requests := requests s @ [name entry]\<rparr>"
    by (rule get_mod_infos_Done)
  let ?p = "file_name selected"
  let ?delete_list = "filter (\<lambda>release. file_name release \<notin> set [?p]) (releases infos)"
  let ?s2 = "fold (\<lambda>release. remove_file (file_name release)) ?delete_list s1"
  let ?final = "final_state (update_mod e enabled_only entry s)"
  have wet2: "\<not> dry_run ?s2" using wet by (simp add: fold_remove_file_fields s1)
  have deleted: "files ?s2 q = (if q \<in> file_name ` set (releases infos) \<and> q \<noteq> ?p
                                then None else files s q)" for q
    using wet by (auto simp: fold_remove_file_files s1)
  from run sel have known: "selected \<in> set (releases infos)"
    using get_mod_infos_releases by fastforce
  have result: "(\<forall>q. q \<noteq> ?p \<longrightarrow> files ?final q = files ?s2 q)
      \<and> (\<forall>s'. update_mod e enabled_only entry s = Done s' \<longrightarrow> files s' ?p \<noteq> None)"
  proof (cases "check_file_and_sha e ?p (sha1 selected) ?s2")
    case True
    with run sel go have "update_mod e enabled_only entry s = Done ?s2"
      by (auto simp: update_mod_def Let_def)
    moreover from True have "files ?s2 ?p \<noteq> None"
      by (auto simp: check_file_and_sha_iff)
    ultimately show ?thesis by simp
  next
    case False
    let ?d = "download_mod e ?p (download_url selected) ?s2"
    from False run sel go have unfold: "update_mod e enabled_only entry s
        = (case ?d of Abort err s3 \<Rightarrow> Abort err s3
           | Done s3 \<Rightarrow> Done (s3\<lparr>has_to_reload := True\<rparr>))"
      by (auto simp: update_mod_def Let_def)
    show ?thesis
    proof (cases ?d)
      case (Done s3)
      then have "files s3 ?p \<noteq> None" using wet2 by (rule download_mod_Done_present)
      moreover have "files s3 q = files ?s2 q" if "q \<noteq> ?p" for q
        using download_mod_other_files [OF that, of e "download_url selected" ?s2] Done
        by simp
      ultimately show ?thesis using unfold Done by simp
    next
      case (Abort err s3)
      have "files s3 q = files ?s2 q" if "q \<noteq> ?p" for q
        using download_mod_other_files [OF that, of e "download_url selected" ?s2] Abort
        by simp
      then show ?thesis using unfold Abort by simp
    qed
  qed
  have a: "\<forall>r\<in>set (releases infos). file_name r \<noteq> ?p \<longrightarrow> files ?final (file_name r) = None"
    using result deleted by auto
  have b: "\<forall>q. q \<notin> file_name ` set (releases infos) \<longrightarrow> files ?final q = files s q"
    using result deleted known by auto
  have c: "\<forall>s'. update_mod e enabled_only entry s = Done s'
               \<longrightarrow> {n \<in> file_name ` set (releases infos). files s' n \<noteq> None} = {?p}"
  proof (intro allI impI)
    fix s' assume d: "update_mod e enabled_only entry s = Done s'"
    then have fin: "?final = s'" by simp
    from d result have "files s' ?p \<noteq> None" by blast
    moreover from a fin have "\<forall>r\<in>set (releases infos). file_name r \<noteq> ?p
        \<longrightarrow> files s' (file_name r) = None"
      by simp
    ultimately show "{n \<in> file_name ` set (releases infos). files s' n \<noteq> None} = {?p}"
      using known by auto
  qed
  from a b c show ?thesis by blast
qed

theorem update_mod_deletes_superseded_witness:
  "\<not> dry_run (example_state False False old_only [base_entry, m_entry])
   \<and> files (example_state False False old_only [base_entry, m_entry]) (file_name rel_old) = Some [1]
   \<and> files (final_state (update_mod example_env False m_entry
               (example_state False False old_only [base_entry, m_entry]))) (file_name rel_old)
       = None"
proof -
  let ?s = "example_state False False old_only [base_entry, m_entry]"
  let ?infos = "\<lparr>info_name = ''m'', info_enabled = True, releases = [rel_new, rel_old],
                  same_version_releases = [rel_new]\<rparr>"
  have h1: "\<not> dry_run ?s" by (simp add: example_state_def)
  have h2: "get_mod_infos example_env m_entry ?s = Done (Some ?infos, ?s\<lparr>requests := [''m'']\<rparr>)"
    by (simp add: run_defs example_defs)
  have h3: "same_version_releases ?infos = rel_new # []" by simp
  have h4: "\<not> (False \<and> \<not> info_enabled ?infos)" by simp
  have old: "files ?s (file_name rel_old) = Some [1]" by (simp add: example_defs)
  from update_mod_deletes_superseded [OF h1 h2 h3 h4]
  have "\<forall>r\<in>set (releases ?infos). file_name r \<noteq> file_name rel_new
          \<longrightarrow> files (final_state (update_mod example_env False m_entry ?s)) (file_name r) = None"
    by blast
  moreover have "rel_old \<in> set (releases ?infos)" by simp
  moreover have "file_name rel_old \<noteq> file_name rel_new" by (simp add: example_defs)
  ultimately have "files (final_state (update_mod example_env False m_entry ?s)) (file_name rel_old)
      = None"
    by blast
  with h1 old show ?thesis by blast
qed

text \<open>
  \<^verbatim>\<open>install_mod\<close> has no deletion step: installing over the file of an older
  release leaves both archives.
\<close>

lemma install_mod_keeps_other_release_files:
  "files (final_state (install_mod example_env ''m''
            (example_state False False old_only [base_entry]))) ''m_1.0.0.zip'' = Some [1]
   \<and> files (final_state (install_mod example_env ''m''
            (example_state False False old_only [base_entry]))) ''m_2.0.0.zip'' = Some [2]"
  by (simp add: run_defs example_defs)

section \<open>Removing a mod\<close>

text \<open>
  C6 as stated fails where \<^verbatim>\<open>remove_mod\<close> returns early or only prints: when the
  portal does not answer with status 200, the entry of the mod stays in mod-list.json;
  in a dry run, the entry and the release files stay.
\<close>

theorem remove_mod_counterexample:
  "mods_list_json (final_state (remove_mod example_env ''gone''
       (example_state False False old_only [base_entry, gone_entry, m_entry])))
     = [base_entry, gone_entry, m_entry]
   \<and> mods_list_json (final_state (remove_mod example_env ''m''
       (example_state True False both_present [base_entry, gone_entry, m_entry])))
     = [base_entry, gone_entry, m_entry]
   \<and> files (final_state (remove_mod example_env ''m''
       (example_state True False both_present [base_entry, gone_entry, m_entry]))) ''m_1.0.0.zip''
     = Some [1]"
  by (simp add: run_defs example_defs)

text \<open>
  C6, amended. Outside a dry run, when \<^verbatim>\<open>get_mod_infos\<close> returns the infos of the
  mod, \<^verbatim>\<open>remove_mod\<close> returns; afterwards no file named as a release of the portal
  is in the folder, mod-list.json holds the former entries without those of that name,
  in their order, and \<^verbatim>\<open>has_to_reload\<close> is set.
\<close>

theorem remove_mod_deletes_all_releases:
  assumes wet: "\<not> dry_run s"
      and run: "get_mod_infos e \<lparr>name = mod_name, enabled = True\<rparr> s = Done (Some infos, s1)"
  shows "\<exists>s' rels. remove_mod e mod_name s = Done s'
           \<and> portal e mod_name = Status_200 (Some rels)
           \<and> (\<forall>r\<in>set rels. files s' (file_name r) = None)
           \<and> mods_list_json s' = filter (\<lambda>entry. name entry \<noteq> mod_name) (mods_list_json s)
           \<and> (\<forall>entry\<in>set (mods_list_json s'). name entry \<noteq> mod_name)
           \<and> has_to_reload s'"
proof -
  from run have s1: "s1 = s\<lparr>requests := requests s @ [mod_name]\<rparr>"
    using get_mod_infos_Done by fastforce
  from run obtain rels where rels: "portal e mod_name = Status_200 (Some rels)"
      and sorted: "releases infos = sorted_by_released_at rels"
    using get_mod_infos_portal by fastforce
  let ?s2 = "fold (\<lambda>release. remove_file (file_name release)) (releases infos) s1"
  let ?new = "filter (\<lambda>entry. mod_name \<noteq> name entry) (mods_list_json ?s2)"
  let ?s' = "(write_mods_list ?new ?s2)\<lparr>has_to_reload := True\<rparr>"
  have wet2: "\<not> dry_run ?s2" using wet by (simp add: fold_remove_file_fields s1)
  from run have ran: "remove_mod e mod_name s = Done ?s'"
    by (simp add: remove_mod_def read_mods_list_def Let_def)
  have gone: "\<forall>r\<in>set rels. files ?s' (file_name r) = None"
    using wet by (simp add: write_mods_list_def fold_remove_file_files s1 sorted
        set_sorted_by_released_at)
  have "mods_list_json ?s2 = mods_list_json s" by (simp add: fold_remove_file_fields s1)
  with wet2 have list: "mods_list_json ?s'
      = filter (\<lambda>entry. name entry \<noteq> mod_name) (mods_list_json s)"
    by (simp add: write_mods_list_def eq_commute [of mod_name])
  then have none: "\<forall>entry\<in>set (mods_list_json ?s'). name entry \<noteq> mod_name" by simp
  have "has_to_reload ?s'" by simp
  with ran rels gone list none show ?thesis by blast
qed

theorem remove_mod_deletes_all_releases_witness:
  "\<not> dry_run (example_state False False both_present [base_entry, m_entry, m_entry])
   \<and> (\<exists>s' rels. remove_mod example_env ''m''
                   (example_state False False both_present [base_entry, m_entry, m_entry]) = Done s'
           \<and> portal example_env ''m'' = Status_200 (Some rels)
           \<and> (\<forall>r\<in>set rels. files s' (file_name r) = None)
           \<and> mods_list_json s'
               = filter (\<lambda>entry. name entry \<noteq> ''m'')
                   (mods_list_json (example_state False False both_present
                      [base_entry, m_entry, m_entry]))
           \<and> (\<forall>entry\<in>set (mods_list_json s'). name entry \<noteq> ''m'')
           \<and> has_to_reload s')"
proof -
  let ?s = "example_state False False both_present [base_entry, m_entry, m_entry]"
  let ?infos = "\<lparr>info_name = ''m'', info_enabled = True, releases = [rel_new, rel_old],
                  same_version_releases = [rel_new]\<rparr>"
  have h1: "\<not> dry_run ?s" by (simp add: example_state_def)
  have h2: "get_mod_infos example_env \<lparr>name = ''m'', enabled = True\<rparr> ?s
      = Done (Some ?infos, ?s\<lparr>requests := [''m'']\<rparr>)"
    by (simp add: run_defs example_defs)
  show ?thesis
    by (rule conjI [OF h1 remove_mod_deletes_all_releases [OF h1 h2]])
qed

section \<open>Installing a mod\<close>

text \<open>
  C10 as stated fails in a dry run: \<^verbatim>\<open>write_mods_list\<close> only prints then, and
  mod-list.json does not gain the entry although a compatible release exists.
\<close>

theorem install_mod_dry_run_counterexample:
  "get_mod_infos example_env \<lparr>name = ''m'', enabled = True\<rparr>
      (example_state True False both_present [base_entry])
     = Done (Some \<lparr>info_name = ''m'', info_enabled = True, releases = [rel_new, rel_old],
                   same_version_releases = [rel_new]\<rparr>,
             (example_state True False both_present [base_entry])\<lparr>requests := [''m'']\<rparr>)
   \<and> mods_list_json (final_state (install_mod example_env ''m''
        (example_state True False both_present [base_entry]))) = [base_entry]"
  by (simp add: run_defs example_defs)

text \<open>
  C10, amended. Outside a dry run, when \<^verbatim>\<open>get_mod_infos\<close> returns infos with a
  compatible release, mod-list.json ends as the former list with the entry of the mod
  (enabled) appended, however \<^verbatim>\<open>install_mod\<close> ends: the list is written before the
  check of the local file, so the entry is there when the download leaves through
  \<^verbatim>\<open>exit(1)\<close>, and when the local file is up to date \<^verbatim>\<open>install_mod\<close> returns
  with the entry appended and nothing else changed but the recorded metadata request.
\<close>

theorem install_mod_appends_entry:
  assumes wet: "\<not> dry_run s"
      and run: "get_mod_infos e \<lparr>name = mod_name, enabled = True\<rparr> s = Done (Some infos, s1)"
      and sel: "same_version_releases infos = selected # others"
  shows "mods_list_json (final_state (install_mod e mod_name s))
           = mods_list_json s @ [\<lparr>name = mod_name, enabled = True\<rparr>]
         \<and> (check_file_and_sha e (file_name selected) (sha1 selected) s
               \<longrightarrow> install_mod e mod_name s
                     = Done (s\<lparr>requests := requests s @ [mod_name],
                               mods_list_json :=
                                 mods_list_json s @ [\<lparr>name = mod_name, enabled = True\<rparr>]\<rparr>))"
proof -
  from run have s1: "s1 = s\<lparr>requests := requests s @ [mod_name]\<rparr>"
    using get_mod_infos_Done by fastforce
  let ?entry = "\<lparr>name = mod_name, enabled = True\<rparr>"
  let ?s2 = "write_mods_list (mods_list_json s1 @ [?entry]) s1"
  have s2: "?s2 = s\<lparr>requests := requests s @ [mod_name],
                      mods_list_json := mods_list_json s @ [?entry]\<rparr>"
    using wet by (simp add: write_mods_list_def s1)
  have check: "check_file_and_sha e p d ?s2 = check_file_and_sha e p d s" for p d
    by (simp add: s2 check_file_and_sha_def)
  let ?d = "download_mod e (file_name selected) (download_url selected) ?s2"
  from run sel have unfold: "install_mod e mod_name s
      = (if check_file_and_sha e (file_name selected) (sha1 selected) ?s2 then Done ?s2
         else (case ?d of Abort err s3 \<Rightarrow> Abort err s3
               | Done s3 \<Rightarrow> Done (s3\<lparr>has_to_reload := True\<rparr>)))"
    by (simp add: install_mod_def read_mods_list_def Let_def)
  have "mods_list_json (final_state ?d) = mods_list_json ?s2"
    by (rule download_mod_fields)
  then have "mods_list_json (final_state (install_mod e mod_name s)) = mods_list_json ?s2"
    unfolding unfold by (cases ?d) simp_all
  moreover have "mods_list_json ?s2 = mods_list_json s @ [?entry]" by (simp add: s2)
  moreover have "check_file_and_sha e (file_name selected) (sha1 selected) s
      \<longrightarrow> install_mod e mod_name s = Done ?s2"
    unfolding unfold by (simp add: check)
  ultimately show ?thesis by (simp add: s2)
qed

theorem install_mod_appends_entry_witness:
  "\<not> dry_run (example_state False False both_present [base_entry, m_entry])
   \<and> check_file_and_sha example_env (file_name rel_new) (sha1 rel_new)
        (example_state False False both_present [base_entry, m_entry])
   \<and> install_mod example_env ''m'' (example_state False False both_present [base_entry, m_entry])
       = Done ((example_state False False both_present [base_entry, m_entry])
                 \<lparr>requests := [''m''], mods_list_json := [base_entry, m_entry, m_entry]\<rparr>)"
proof -
  let ?s = "example_state False False both_present [base_entry, m_entry]"
  let ?infos = "\<lparr>info_name = ''m'', info_enabled = True, releases = [rel_new, rel_old],
                  same_version_releases = [rel_new]\<rparr>"
  have h1: "\<not> dry_run ?s" by (simp add: example_state_def)
  have h2: "get_mod_infos example_env \<lparr>name = ''m'', enabled = True\<rparr> ?s
      = Done (Some ?infos, ?s\<lparr>requests := [''m'']\<rparr>)"
    by (simp add: run_defs example_defs)
  have h3: "same_version_releases ?infos = rel_new # []" by simp
  have h4: "check_file_and_sha example_env (file_name rel_new) (sha1 rel_new) ?s"
    by (simp add: run_defs example_defs)
  from install_mod_appends_entry [OF h1 h2 h3] h4
  have "install_mod example_env ''m'' ?s
      = Done (?s\<lparr>requests := requests ?s @ [''m''],
                 mods_list_json := mods_list_json ?s @ [\<lparr>name = ''m'', enabled = True\<rparr>]\<rparr>)"
    by blast
  with h1 h4 show ?thesis by (simp add: example_state_def m_entry_def)
qed

section \<open>Dry runs\<close>

lemma world_unchanged_refl: "world_unchanged s s"
  by (simp add: world_unchanged_def)

lemma world_unchanged_trans:
  "world_unchanged s s1 \<Longrightarrow> world_unchanged s1 s2 \<Longrightarrow> world_unchanged s s2"
  by (simp add: world_unchanged_def)

lemma remove_file_dry_run: "dry_run s \<Longrightarrow> remove_file p s = s"
  by (simp add: remove_file_def)

lemma fold_remove_file_dry_run:
  "dry_run s \<Longrightarrow> fold (\<lambda>release. remove_file (file_name release)) rs s = s"
  by (induction rs) (simp_all add: remove_file_dry_run)

lemma write_mods_list_dry_run: "dry_run s \<Longrightarrow> write_mods_list ms s = s"
  by (simp add: write_mods_list_def)

text \<open>What every operation keeps in a dry run.\<close>

lemma get_mod_infos_state:
  "get_mod_infos e entry s = Done (r, s') \<or> get_mod_infos e entry s = Abort err s'
     \<Longrightarrow> s' = s\<lparr>requests := requests s @ [name entry]\<rparr>"
  using get_mod_infos_Done get_mod_infos_Abort by blast

lemma update_mod_dry_run:
  assumes "dry_run s"
  shows "dry_run (final_state (update_mod e enabled_only entry s))
         \<and> world_unchanged s (final_state (update_mod e enabled_only entry s))"
proof (cases "get_mod_infos e entry s")
  case (Abort err s1)
  then have "s1 = s\<lparr>requests := requests s @ [name entry]\<rparr>" by (rule get_mod_infos_Abort)
  with Abort assms show ?thesis by (simp add: update_mod_def world_unchanged_def)
next
  case (Done r)
  obtain infos s1 where r: "r = (infos, s1)" by (cases r)
  with Done have s1: "s1 = s\<lparr>requests := requests s @ [name entry]\<rparr>"
    using get_mod_infos_Done by blast
  then have dry1: "dry_run s1" using assms by simp
  show ?thesis
  proof (cases infos)
    case None
    with Done r s1 assms show ?thesis by (simp add: update_mod_def world_unchanged_def)
  next
    case (Some i)
    with Done r dry1 show ?thesis
      by (auto simp: update_mod_def world_unchanged_def Let_def fold_remove_file_dry_run
            download_mod_dry_run s1 split: list.splits)
  qed
qed

lemma update_loop_dry_run:
  "dry_run s \<Longrightarrow> dry_run (final_state (update_loop e enabled_only ms s))
     \<and> world_unchanged s (final_state (update_loop e enabled_only ms s))"
proof (induction ms arbitrary: s)
  case Nil
  then show ?case by (simp add: world_unchanged_refl)
next
  case (Cons entry ms)
  from Cons.prems have step: "dry_run (final_state (update_mod e enabled_only entry s))"
      "world_unchanged s (final_state (update_mod e enabled_only entry s))"
    using update_mod_dry_run by blast+
  show ?case
  proof (cases "update_mod e enabled_only entry s")
    case (Abort err s1)
    with step show ?thesis by simp
  next
    case (Done s1)
    with step have "dry_run s1" "world_unchanged s s1" by simp_all
    with Cons.IH [of s1] Done show ?thesis
      using world_unchanged_trans by auto
  qed
qed

lemma update_mods_dry_run:
  "dry_run s \<Longrightarrow> dry_run (final_state (update_mods e enabled_only s))
     \<and> world_unchanged s (final_state (update_mods e enabled_only s))"
  using update_loop_dry_run
  by (auto simp: update_mods_def read_mods_list_def world_unchanged_refl split: list.splits)

lemma install_mod_dry_run:
  assumes "dry_run s"
  shows "dry_run (final_state (install_mod e mod_name s))
         \<and> world_unchanged s (final_state (install_mod e mod_name s))
         \<and> requests (final_state (install_mod e mod_name s)) = requests s @ [mod_name]"
proof (cases "get_mod_infos e \<lparr>name = mod_name, enabled = True\<rparr> s")
  case (Abort err s1)
  then have "s1 = s\<lparr>requests := requests s @ [mod_name]\<rparr>"
    using get_mod_infos_Abort by fastforce
  with Abort assms show ?thesis by (simp add: install_mod_def world_unchanged_def)
next
  case (Done r)
  obtain infos s1 where r: "r = (infos, s1)" by (cases r)
  with Done have s1: "s1 = s\<lparr>requests := requests s @ [mod_name]\<rparr>"
    using get_mod_infos_Done by fastforce
  then have dry1: "dry_run s1" using assms by simp
  from Done r dry1 show ?thesis
    by (auto simp: install_mod_def world_unchanged_def Let_def read_mods_list_def
          write_mods_list_dry_run download_mod_dry_run s1 split: list.splits option.splits)
qed

lemma remove_mod_dry_run:
  assumes "dry_run s"
  shows "dry_run (final_state (remove_mod e mod_name s))
         \<and> world_unchanged s (final_state (remove_mod e mod_name s))"
proof (cases "get_mod_infos e \<lparr>name = mod_name, enabled = True\<rparr> s")
  case (Abort err s1)
  then have "s1 = s\<lparr>requests := requests s @ [mod_name]\<rparr>"
    using get_mod_infos_Abort by fastforce
  with Abort assms show ?thesis by (simp add: remove_mod_def world_unchanged_def)
next
  case (Done r)
  obtain infos s1 where r: "r = (infos, s1)" by (cases r)
  with Done have s1: "s1 = s\<lparr>requests := requests s @ [mod_name]\<rparr>"
    using get_mod_infos_Done by fastforce
  then have dry1: "dry_run s1" using assms by simp
  from Done r dry1 show ?thesis
    by (auto simp: remove_mod_def world_unchanged_def Let_def read_mods_list_def
          write_mods_list_dry_run fold_remove_file_dry_run s1 split: option.splits)
qed

lemma update_state_mods_dry_run:
  "dry_run s \<Longrightarrow> dry_run (final_state (update_state_mods names should_enable s))
     \<and> world_unchanged s (final_state (update_state_mods names should_enable s))"
  by (simp add: update_state_mods_def read_mods_list_def write_mods_list_dry_run
      world_unchanged_def Let_def)

lemma check_mod_manager_update_same: "final_state (check_mod_manager_update e s) = s"
  by (simp add: check_mod_manager_update_def)

lemma reload_and_exit_dry_run:
  "dry_run s \<Longrightarrow> final_state (reload_and_exit s) = s"
  by (simp add: reload_and_exit_def)

text \<open>\<^verbatim>\<open>load_config\<close> assigns entries of \<^verbatim>\<open>glob\<close> and changes nothing else.\<close>

lemma assign_world:
  "world_unchanged s (assign_reload a c s)"
  "world_unchanged s (assign_factorio_path e a c s)"
  "world_unchanged s (assign_credentials a c s)"
  "world_unchanged s (assign_flags a c s)"
  "world_unchanged s (assign_version a c v s)"
  "world_unchanged s (s\<lparr>mods_folder_path := p\<rparr>)"
  "world_unchanged s (s\<lparr>mods_list_path := p\<rparr>)"
  by (simp_all add: world_unchanged_def assign_reload_def assign_factorio_path_def
      assign_credentials_def assign_flags_def assign_version_def)

lemma assign_version_dry_run:
  "dry_run (assign_version a c v (assign_flags a c s)) = args_dry_run a"
  by (simp add: assign_version_def assign_flags_def)

lemma load_config_world:
  assumes "load_config e a s = Done (ok, t) \<or> load_config e a s = Abort err t"
  shows "world_unchanged s t \<and> (load_config e a s = Done (True, t) \<longrightarrow> dry_run t = args_dry_run a)"
proof -
  let ?config = "or_default (config_file e) no_config"
  let ?s1 = "assign_reload a ?config s"
  let ?s2 = "assign_factorio_path e a ?config ?s1"
  have w1: "world_unchanged s ?s1" by (rule assign_world)
  have w2: "world_unchanged s ?s2"
    by (rule world_unchanged_trans [OF w1 assign_world(2)])
  show ?thesis
  proof (cases "should_reload ?s1 \<and> service_name ?s1 = None")
    case True
    have "load_config e a s = Abort (SystemExit 2) ?s1"
      by (simp only: load_config_def Let_def True if_True simp_thms)
    with assms w1 show ?thesis by auto
  next
    case ok1: False
    show ?thesis
    proof (cases "factorio_path ?s2")
      case None
      have "load_config e a s = Done (False, ?s2)"
        by (simp only: load_config_def Let_def ok1 if_False None option.case)
      with assms w2 show ?thesis by auto
    next
      case (Some fp)
      let ?s3 = "?s2\<lparr>mods_folder_path := path_join fp ''mods''\<rparr>"
      let ?s4 = "?s3\<lparr>mods_list_path := path_join (mods_folder_path ?s3) ''mod-list.json''\<rparr>"
      let ?s5 = "assign_credentials a ?config ?s4"
      let ?s6 = "assign_flags a ?config ?s5"
      have w3: "world_unchanged s ?s3"
        by (rule world_unchanged_trans [OF w2 assign_world(6)])
      have w4: "world_unchanged s ?s4"
        by (rule world_unchanged_trans [OF w3 assign_world(7)])
      have w5: "world_unchanged s ?s5"
        by (rule world_unchanged_trans [OF w4 assign_world(3)])
      have w6: "world_unchanged s ?s6"
        by (rule world_unchanged_trans [OF w5 assign_world(4)])
      have unfold: "load_config e a s =
          (if \<not> path_exists e (mods_folder_path ?s3) \<and> \<not> path_isdir e (mods_folder_path ?s3)
           then Done (False, ?s3)
           else if \<not> path_exists e (mods_list_path ?s4) \<and> \<not> path_isfile e (mods_list_path ?s4)
           then Done (False, ?s4)
           else if (args_should_update a \<or> args_mod_name_to_install a \<noteq> None)
                   \<and> (username ?s5 = [] \<or> username ?s5 = [])
           then Done (False, ?s5)
           else (case find_version e ?s6 of
                   Abort err s7 \<Rightarrow> Abort err s7
                 | Done v \<Rightarrow> Done (True, assign_version a ?config v ?s6)))"
        by (simp only: load_config_def Let_def ok1 if_False Some option.case)
      have last: "world_unchanged s (assign_version a ?config v ?s6)" for v
        by (rule world_unchanged_trans [OF w6 assign_world(5)])
      have dry: "dry_run (assign_version a ?config v ?s6) = args_dry_run a" for v
        by (rule assign_version_dry_run)
      show ?thesis
      proof (cases "find_version e ?s6")
        case (Done v)
        with assms last [of v] dry [of v] w3 w4 w5 show ?thesis
          unfolding unfold by (auto split: if_splits)
      next
        case (Abort err' s7)
        then have "s7 = ?s6" by (auto simp: find_version_def split: probe.splits)
        with Abort assms w3 w4 w5 w6 show ?thesis
          unfolding unfold by (auto split: if_splits)
      qed
    qed
  qed
qed

lemma and_then_final:
  assumes "P (final_state r)"
      and "\<And>s1. r = Done s1 \<Longrightarrow> P (final_state (f s1))"
  shows "P (final_state (and_then r f))"
  using assms by (cases r) (simp_all add: and_then_def)

lemma dry_step:
  assumes op: "\<And>t. dry_run t \<Longrightarrow> dry_run (final_state (f t)) \<and> world_unchanged t (final_state (f t))"
      and "dry_run s1 \<and> world_unchanged s s1"
  shows "dry_run (final_state (f s1)) \<and> world_unchanged s (final_state (f s1))"
  using assms world_unchanged_trans by blast

lemma run_if_dry:
  assumes op: "\<And>t. dry_run t \<Longrightarrow> dry_run (final_state (f t)) \<and> world_unchanged t (final_state (f t))"
      and "dry_run s1 \<and> world_unchanged s s1"
  shows "dry_run (final_state (run_if c f s1)) \<and> world_unchanged s (final_state (run_if c f s1))"
  using dry_step [OF op assms(2)] assms(2) by (simp add: run_if_def)

lemma run_if_given_dry:
  assumes op: "\<And>n t. dry_run t \<Longrightarrow> dry_run (final_state (f n t)) \<and> world_unchanged t (final_state (f n t))"
      and "dry_run s1 \<and> world_unchanged s s1"
  shows "dry_run (final_state (run_if_given x f s1))
         \<and> world_unchanged s (final_state (run_if_given x f s1))"
proof (cases x)
  case None
  with assms(2) show ?thesis by (simp add: run_if_given_def)
next
  case (Some n)
  from dry_step [of "f n", OF op assms(2)] assms(2) Some show ?thesis
    by (simp add: run_if_given_def)
qed

lemma main_dry_run:
  assumes "args_dry_run a"
  shows "world_unchanged s (final_state (main e a s))"
proof (cases "argv_length a = 1")
  case True
  then show ?thesis by (simp add: main_def world_unchanged_refl)
next
  case False
  show ?thesis
  proof (cases "load_config e a s")
    case (Abort err s1)
    then have "world_unchanged s s1" using load_config_world [of e a s True s1 err] by blast
    with False Abort show ?thesis by (simp add: main_def)
  next
    case (Done r)
    obtain ok s1 where r: "r = (ok, s1)" by (cases r)
    with Done have lc: "load_config e a s = Done (ok, s1)" by simp
    from lc have w1: "world_unchanged s s1"
        and d1: "ok \<longrightarrow> dry_run s1 = args_dry_run a"
      using load_config_world [of e a s ok s1 KeyError] by auto
    show ?thesis
    proof (cases ok)
      case False
      with \<open>argv_length a \<noteq> 1\<close> lc w1 show ?thesis by (simp add: main_def)
    next
      case True
      let ?P = "\<lambda>t. dry_run t \<and> world_unchanged s t"
      from True d1 assms w1 have p1: "?P s1" by simp
      let ?tail = "\<lambda>s4. if args_list_mods a then
                 (case read_mods_list True s4 of
                    Abort err s5 \<Rightarrow> Abort err s5
                  | Done mods_list \<Rightarrow> Abort (SystemExit 0) s4)
               else
                 and_then (run_if (args_should_update a)
                             (update_mods e (args_enabled_only a)) s4) (\<lambda>s5.
                 and_then (run_if_given (args_mod_name_to_install a) (install_mod e) s5) (\<lambda>s6.
                 and_then (run_if_given (args_remove_mod_name a) (remove_mod e) s6)
                   reload_and_exit))"
      have tail: "?P (final_state (?tail s4))" if p4: "?P s4" for s4
      proof (cases "args_list_mods a")
        case True
        with p4 show ?thesis by (simp add: read_mods_list_def split: list.splits)
      next
        case False
        have "?P (final_state
                 (and_then (run_if (args_should_update a)
                             (update_mods e (args_enabled_only a)) s4) (\<lambda>s5.
                 and_then (run_if_given (args_mod_name_to_install a) (install_mod e) s5) (\<lambda>s6.
                 and_then (run_if_given (args_remove_mod_name a) (remove_mod e) s6)
                   reload_and_exit))))"
        proof (rule and_then_final)
          show p5: "?P (final_state (run_if (args_should_update a)
                             (update_mods e (args_enabled_only a)) s4))"
            by (rule run_if_dry [OF update_mods_dry_run p4])
          fix s5
          assume "run_if (args_should_update a) (update_mods e (args_enabled_only a)) s4 = Done s5"
          with p5 have p5': "?P s5" by simp
          show "?P (final_state
                 (and_then (run_if_given (args_mod_name_to_install a) (install_mod e) s5) (\<lambda>s6.
                 and_then (run_if_given (args_remove_mod_name a) (remove_mod e) s6)
                   reload_and_exit)))"
          proof (rule and_then_final)
            show p6: "?P (final_state (run_if_given (args_mod_name_to_install a) (install_mod e) s5))"
              using run_if_given_dry [of "install_mod e", OF _ p5'] install_mod_dry_run by blast
            fix s6
            assume "run_if_given (args_mod_name_to_install a) (install_mod e) s5 = Done s6"
            with p6 have p6': "?P s6" by simp
            show "?P (final_state
                   (and_then (run_if_given (args_remove_mod_name a) (remove_mod e) s6)
                     reload_and_exit))"
            proof (rule and_then_final)
              show p7: "?P (final_state (run_if_given (args_remove_mod_name a) (remove_mod e) s6))"
                using run_if_given_dry [of "remove_mod e", OF _ p6'] remove_mod_dry_run by blast
              fix s7
              assume "run_if_given (args_remove_mod_name a) (remove_mod e) s6 = Done s7"
              with p7 have "?P s7" by simp
              then show "?P (final_state (reload_and_exit s7))"
                by (simp add: reload_and_exit_dry_run)
            qed
          qed
        qed
        with False show ?thesis by simp
      qed
      have "?P (final_state
               (and_then (run_if (\<not> args_disable_mod_manager_update a)
                           (check_mod_manager_update e) s1) (\<lambda>s2.
               and_then (run_if (args_list_enable_mods a \<noteq> [])
                           (update_state_mods (args_list_enable_mods a) True) s2) (\<lambda>s3.
               and_then (run_if (args_list_disable_mods a \<noteq> [])
                           (update_state_mods (args_list_disable_mods a) False) s3) ?tail))))"
      proof (rule and_then_final)
        show p2: "?P (final_state (run_if (\<not> args_disable_mod_manager_update a)
                           (check_mod_manager_update e) s1))"
          using p1 by (simp add: run_if_def check_mod_manager_update_same)
        fix s2
        assume "run_if (\<not> args_disable_mod_manager_update a) (check_mod_manager_update e) s1
                  = Done s2"
        with p2 have p2': "?P s2" by simp
        show "?P (final_state
               (and_then (run_if (args_list_enable_mods a \<noteq> [])
                           (update_state_mods (args_list_enable_mods a) True) s2) (\<lambda>s3.
               and_then (run_if (args_list_disable_mods a \<noteq> [])
                           (update_state_mods (args_list_disable_mods a) False) s3) ?tail)))"
        proof (rule and_then_final)
          show p3: "?P (final_state (run_if (args_list_enable_mods a \<noteq> [])
                           (update_state_mods (args_list_enable_mods a) True) s2))"
            by (rule run_if_dry [OF update_state_mods_dry_run p2'])
          fix s3
          assume "run_if (args_list_enable_mods a \<noteq> [])
                    (update_state_mods (args_list_enable_mods a) True) s2 = Done s3"
          with p3 have p3': "?P s3" by simp
          show "?P (final_state
               (and_then (run_if (args_list_disable_mods a \<noteq> [])
                           (update_state_mods (args_list_disable_mods a) False) s3) ?tail))"
          proof (rule and_then_final)
            show p4: "?P (final_state (run_if (args_list_disable_mods a \<noteq> [])
                           (update_state_mods (args_list_disable_mods a) False) s3))"
              by (rule run_if_dry [OF update_state_mods_dry_run p3'])
            fix s4
            assume "run_if (args_list_disable_mods a \<noteq> [])
                      (update_state_mods (args_list_disable_mods a) False) s3 = Done s4"
            with p4 have "?P s4" by simp
            then show "?P (final_state (?tail s4))" by (rule tail)
          qed
        qed
      qed
      with True \<open>argv_length a \<noteq> 1\<close> lc show ?thesis by (simp add: main_def)
    qed
  qed
qed

lemma update_mod_dry_run_requests:
  assumes "dry_run s"
  shows "requests (final_state (update_mod e enabled_only entry s)) = requests s @ [name entry]"
proof (cases "get_mod_infos e entry s")
  case (Abort err s1)
  then have "s1 = s\<lparr>requests := requests s @ [name entry]\<rparr>" by (rule get_mod_infos_Abort)
  with Abort show ?thesis by (simp add: update_mod_def)
next
  case (Done r)
  obtain infos s1 where r: "r = (infos, s1)" by (cases r)
  with Done have s1: "s1 = s\<lparr>requests := requests s @ [name entry]\<rparr>"
    using get_mod_infos_Done by blast
  then have dry1: "dry_run s1" using assms by simp
  from Done r dry1 show ?thesis
    by (auto simp: update_mod_def Let_def fold_remove_file_dry_run
          download_mod_dry_run s1 split: list.splits option.splits)
qed

lemmas main_defs =
  main_def load_config_def assign_reload_def assign_factorio_path_def
  assign_credentials_def assign_flags_def assign_version_def find_version_def
  no_config_def or_default_def str_or_def truthy_def path_join_def run_if_def
  run_if_given_def and_then_def check_mod_manager_update_def reload_and_exit_def
  update_state_mods_def args_no_token_def args_dry_update_def

text \<open>
  C8. When the run is a dry run (\<^verbatim>\<open>--dry-run\<close> given), then however \<^verbatim>\<open>main\<close>
  ends, by return, by \<^verbatim>\<open>exit\<close> or by an exception, the mods folder, mod-list.json,
  the restarts of the service and the artifact requests are as they were before the
  run: every deletion, file write, manifest write and restart is replaced by its message.
  The metadata requests are still made: in a dry run the loop body of
  \<^verbatim>\<open>update_mods\<close> and \<^verbatim>\<open>install_mod\<close> each ask the portal once for their mod.
\<close>

theorem dry_run_leaves_world_unchanged:
  assumes "args_dry_run a"
  shows "files (final_state (main e a s)) = files s
         \<and> mods_list_json (final_state (main e a s)) = mods_list_json s
         \<and> restarts (final_state (main e a s)) = restarts s
         \<and> downloads (final_state (main e a s)) = downloads s
         \<and> (\<forall>t entry enabled_only. dry_run t
               \<longrightarrow> requests (final_state (update_mod e enabled_only entry t))
                     = requests t @ [name entry])
         \<and> (\<forall>t n. dry_run t
               \<longrightarrow> requests (final_state (install_mod e n t)) = requests t @ [n])"
proof -
  from assms have "world_unchanged s (final_state (main e a s))" by (rule main_dry_run)
  then show ?thesis
    using update_mod_dry_run_requests install_mod_dry_run
    by (simp add: world_unchanged_def)
qed

theorem dry_run_leaves_world_unchanged_witness:
  "args_dry_run args_dry_update
   \<and> files (final_state (main example_env args_dry_update
               (initial_state old_only [base_entry, m_entry])))
       = files (initial_state old_only [base_entry, m_entry])
   \<and> mods_list_json (final_state (main example_env args_dry_update
               (initial_state old_only [base_entry, m_entry])))
       = mods_list_json (initial_state old_only [base_entry, m_entry])
   \<and> restarts (final_state (main example_env args_dry_update
               (initial_state old_only [base_entry, m_entry])))
       = restarts (initial_state old_only [base_entry, m_entry])
   \<and> downloads (final_state (main example_env args_dry_update
               (initial_state old_only [base_entry, m_entry])))
       = downloads (initial_state old_only [base_entry, m_entry])
   \<and> requests (final_state (main example_env args_dry_update
               (initial_state old_only [base_entry, m_entry]))) = [''m'', ''m'']"
proof -
  have h: "args_dry_run args_dry_update" by (simp add: args_dry_update_def)
  have fetched: "requests (final_state (main example_env args_dry_update
      (initial_state old_only [base_entry, m_entry]))) = [''m'', ''m'']"
    by (simp add: main_defs run_defs example_defs)
  from dry_run_leaves_world_unchanged [OF h, of example_env
      "initial_state old_only [base_entry, m_entry]"] h fetched
  show ?thesis by blast
qed

section \<open>A mod the portal does not answer for\<close>

text \<open>
  C3 does not hold for \<^verbatim>\<open>update_mods\<close>: \<^verbatim>\<open>get_mod_infos\<close> returns
  \<^verbatim>\<open>None\<close> when the status is not 200, and the loop subscripts the result without
  the test that \<^verbatim>\<open>install_mod\<close> makes. With the mods list base, gone, m and a portal
  that does not know \<open>gone\<close>, the run ends in TypeError after the request for
  \<open>gone\<close>; the mod \<open>m\<close> is never asked for.
\<close>

theorem update_mods_aborts_on_fetch_failure:
  "update_mods example_env False
     (example_state False False old_only [base_entry, gone_entry, m_entry])
   = Abort TypeError
       ((example_state False False old_only [base_entry, gone_entry, m_entry])
          \<lparr>requests := [''gone'']\<rparr>)"
  by (simp add: run_defs example_defs)

text \<open>
  The same in general, with the two other cases of C3: a body without
  \<^verbatim>\<open>releases\<close> ends the loop in KeyError, and an empty filtered list is skipped.
\<close>

lemma update_loop_fetch_failure:
  "portal e (name entry) = Status_Other
     \<Longrightarrow> update_loop e enabled_only (entry # rest) s
         = Abort TypeError (s\<lparr>requests := requests s @ [name entry]\<rparr>)"
  by (simp add: update_mod_def get_mod_infos_def)

lemma update_loop_missing_releases:
  "portal e (name entry) = Status_200 None
     \<Longrightarrow> update_loop e enabled_only (entry # rest) s
         = Abort KeyError (s\<lparr>requests := requests s @ [name entry]\<rparr>)"
  by (simp add: update_mod_def get_mod_infos_def)

lemma update_loop_no_match_continues:
  "get_mod_infos e entry s = Done (Some infos, s1) \<Longrightarrow> same_version_releases infos = []
     \<Longrightarrow> update_loop e enabled_only (entry # rest) s = update_loop e enabled_only rest s1"
  by (simp add: update_mod_def)

lemma install_mod_fetch_failure_skips:
  "portal e mod_name = Status_Other
     \<Longrightarrow> install_mod e mod_name s = Done (s\<lparr>requests := requests s @ [mod_name]\<rparr>)"
  by (simp add: install_mod_def get_mod_infos_def)

section \<open>Configuration without a token\<close>

text \<open>
  C9 does not hold for a missing token: the test of \<^verbatim>\<open>load_config\<close> compares
  \<^verbatim>\<open>glob['username']\<close> with the empty string twice and never looks at
  \<^verbatim>\<open>glob['token']\<close>. With a user name, no token and an update asked,
  \<^verbatim>\<open>load_config\<close> returns true with an empty token, and the run goes on: it asks
  the portal, deletes the file of the superseded release, sends the artifact request
  and ends in \<^verbatim>\<open>exit(1)\<close> on the answer.
\<close>

theorem main_runs_without_token:
  "load_config example_env args_no_token (initial_state old_only [base_entry, m_entry])
     = Done (True,
         (example_state False False old_only [base_entry, m_entry])\<lparr>token := []\<rparr>)
   \<and> main example_env args_no_token (initial_state old_only [base_entry, m_entry])
     = Abort (SystemExit 1)
         ((example_state False False Map.empty [base_entry, m_entry])
            \<lparr>token := [], requests := [''m''], downloads := [''/download/m/2'']\<rparr>)"
  by (simp add: main_defs run_defs example_defs)

text \<open>
  Where \<^verbatim>\<open>load_config\<close> does return false, \<^verbatim>\<open>main\<close> leaves through
  \<^verbatim>\<open>exit(1)\<close> with the world as it was.
\<close>

lemma main_exits_on_rejected_config:
  assumes "load_config e a s = Done (False, t)" and "argv_length a \<noteq> 1"
  shows "main e a s = Abort (SystemExit 1) t \<and> world_unchanged s t"
  using assms load_config_world [of e a s False t KeyError] by (simp add: main_def)

section \<open>The scenarios of the specification\<close>

text \<open>
  Releases 1.0 for host 0.18 at time 100 and 2.0 for host 1.0 at time 200: host 1.0
  without downgrade selects 2.0; host 1.1 without downgrade matches nothing; host 1.1
  with downgrade selects 2.0, the more recent of the two compatible releases.
\<close>

lemma scenario_exact:
  "filter_releases False (Some [1, 0]) (sorted_by_released_at [rel_old, rel_new])
     = Inr [rel_new]"
  by (simp add: run_defs example_defs)

lemma scenario_no_match:
  "filter_releases False (Some [1, 1]) (sorted_by_released_at [rel_old, rel_new]) = Inr []"
  by (simp add: run_defs example_defs)

lemma scenario_downgrade:
  "filter_releases True (Some [1, 1]) (sorted_by_released_at [rel_old, rel_new])
     = Inr [rel_new, rel_old]"
  by (simp add: run_defs example_defs)

text \<open>Releases of equal time keep their order, and 1.0 equals 1.0.0.\<close>

lemma sorted_by_released_at_tie:
  "released_at a = released_at b \<Longrightarrow> sorted_by_released_at [a, b] = [a, b]"
  by (simp add: sorted_by_released_at_def)

lemma version_eq_trailing_zero: "version_eq [1, 0] [1, 0, 0] \<and> \<not> version_eq [1, 0] [1, 0, 5]"
  by (simp add: version_eq_def cmpkey_def)

end
